theory Spec2Isabelle
  imports Main
begin

section \<open>Amount codec\<close>

text \<open>
  The script converts amounts with \<^verbatim>\<open>ethers.parseUnits\<close> and \<^verbatim>\<open>ethers.formatUnits\<close>.
  Both belong to the ethers library, whose code is not part of \<^verbatim>\<open>src/\<close>; the
  specification describes them in section 4.1 as \<^verbatim>\<open>toBaseUnits\<close> and
  \<^verbatim>\<open>toDecimalString\<close>. Base units are JavaScript big integers, here \<^typ>\<open>int\<close>.
\<close>

text \<open>
  An error is the \<^verbatim>\<open>InvalidAmount\<close> of the codec, of which the spec gives the name only,
  or a JavaScript \<^verbatim>\<open>Error\<close> with its message.
\<close>

datatype error = InvalidAmount | Error string

fun message :: "error \<Rightarrow> string" where
  "message InvalidAmount = ''invalid amount''"
| "message (Error m) = m"

definition digit_chars :: string where
  "digit_chars = ''0123456789''"

definition is_digit :: "char \<Rightarrow> bool" where
  "is_digit c = (c \<in> set digit_chars)"

text \<open>The position of a digit character in \<open>digit_chars\<close> (10 for any other character).\<close>

definition digit_val :: "char \<Rightarrow> nat" where
  "digit_val c = length (takeWhile (\<lambda>d. d \<noteq> c) digit_chars)"

definition digit_char :: "nat \<Rightarrow> char" where
  "digit_char d = digit_chars ! (d mod 10)"

text \<open>The number a string of decimal digits denotes, most significant digit first.\<close>

definition digits_val :: "string \<Rightarrow> nat" where
  "digits_val ds = foldl (\<lambda>n c. 10 * n + digit_val c) 0 ds"

text \<open>The decimal digits of a number, without leading zeros (\<open>0\<close> is \<open>''0''\<close>).\<close>

function to_digits :: "nat \<Rightarrow> string" where
  "to_digits n = (if n < 10 then [digit_char n] else to_digits (n div 10) @ [digit_char (n mod 10)])"
  by pat_completeness auto
termination
  by (relation "measure id") auto

declare to_digits.simps [simp del]

text \<open>The last \<open>k\<close> decimal digits of a number, zero-padded on the left.\<close>

fun fixed_digits :: "nat \<Rightarrow> nat \<Rightarrow> string" where
  "fixed_digits 0 n = []"
| "fixed_digits (Suc k) n = fixed_digits k (n div 10) @ [digit_char (n mod 10)]"

text \<open>
  Modelled from the spec: what sections 4.1 and 8 call a valid decimal amount is missing
  from \<^verbatim>\<open>src/\<close> with the codec, and the spec does not spell it out. It is taken to
  be an unsigned decimal numeral: a whole part without superfluous leading zeros and,
  when there is a point, a fraction of at least one digit. A sign, an exponent and any
  other character make the input non-numeric.
\<close>

definition whole_part :: "string \<Rightarrow> string" where
  "whole_part s = takeWhile (\<lambda>c. c \<noteq> CHR ''.'') s"

definition fraction_part :: "string \<Rightarrow> string" where
  "fraction_part s = drop 1 (dropWhile (\<lambda>c. c \<noteq> CHR ''.'') s)"

definition valid_whole :: "string \<Rightarrow> bool" where
  "valid_whole ds = (ds \<noteq> [] \<and> list_all is_digit ds \<and> (ds = ''0'' \<or> hd ds \<noteq> CHR ''0''))"

definition valid_amount :: "string \<Rightarrow> bool" where
  "valid_amount s =
     (valid_whole (whole_part s) \<and>
      (CHR ''.'' \<in> set s \<longrightarrow> fraction_part s \<noteq> [] \<and> list_all is_digit (fraction_part s)))"

text \<open>
  Modelled from the spec: \<^verbatim>\<open>ethers.parseUnits\<close>, the spec's
  \<^verbatim>\<open>toBaseUnits(decimalAmount, precision) -> integer\<close> (section 4.1), is missing from
  \<^verbatim>\<open>src/\<close>. It turns a decimal amount into the integer number of base units at the
  given precision, exactly, and rejects with \<^verbatim>\<open>InvalidAmount\<close> a negative or non-numeric
  input and a precision beyond the supported bound. The spec requires the bound to be at
  least 18 and does not name it, so it is the parameter \<open>bound\<close>. An amount with more
  fractional digits than the precision has no exact base-unit value and is rejected too.
\<close>

definition parseUnits :: "nat \<Rightarrow> string \<Rightarrow> nat \<Rightarrow> error + int" where
  "parseUnits bound s p =
     (if bound < p then Inl InvalidAmount
      else if \<not> valid_amount s then Inl InvalidAmount
      else if p < length (fraction_part s) then Inl InvalidAmount
      else Inr (int (digits_val (whole_part s) * 10 ^ p
                     + digits_val (fraction_part s) * 10 ^ (p - length (fraction_part s)))))"

text \<open>
  Modelled from the spec: \<^verbatim>\<open>ethers.formatUnits\<close>, the spec's
  \<^verbatim>\<open>toDecimalString(baseUnits, precision) -> string\<close> (section 4.1), is missing from
  \<^verbatim>\<open>src/\<close>. It writes an integer number of base units as a decimal amount in fixed
  point: the whole part, and for a positive precision a point and exactly \<open>p\<close>
  fractional digits.
\<close>

definition format_nat :: "nat \<Rightarrow> nat \<Rightarrow> string" where
  "format_nat n p =
     to_digits (n div 10 ^ p) @ (if p = 0 then [] else CHR ''.'' # fixed_digits p (n mod 10 ^ p))"

definition formatUnits :: "int \<Rightarrow> nat \<Rightarrow> string" where
  "formatUnits x p = (if x < 0 then CHR ''-'' # format_nat (nat (- x)) p else format_nat (nat x) p)"

text \<open>
  Modelled from the spec: the trailing-zero normalisation of section 8, up to which the
  round trip holds. The zeros that end a fraction are dropped, and the point with them
  when no fractional digit is left.
\<close>

definition strip_zeros :: "string \<Rightarrow> string" where
  "strip_zeros s = rev (dropWhile (\<lambda>c. c = CHR ''0'') (rev s))"

definition normalise :: "string \<Rightarrow> string" where
  "normalise s =
     (if CHR ''.'' \<in> set s
      then (let f = strip_zeros (fraction_part s)
            in if f = [] then whole_part s else whole_part s @ CHR ''.'' # f)
      else s)"

section \<open>Configuration of the script\<close>

type_synonym address = string
type_synonym hash = string

definition POOL_FACTORY_CONTRACT_ADDRESS :: address where
  "POOL_FACTORY_CONTRACT_ADDRESS = ''0x0227628f3F023bb0B980b67D528571c95c6DaC1c''"

definition SWAP_ROUTER_CONTRACT_ADDRESS :: address where
  "SWAP_ROUTER_CONTRACT_ADDRESS = ''0x3bFA4769FB09eefC5a80d6E87c3B9C650f7Ae48E''"

definition AAVE_LENDING_POOL_ADDRESS :: address where
  "AAVE_LENDING_POOL_ADDRESS = ''0x7d2768dE32b0b80b7a3454c06BdAc94A69DDc7A9''"

record token =
  chainId :: nat
  address :: address
  decimals :: nat
  symbol :: string
  name :: string
  isToken :: bool
  isNative :: bool
  wrapped :: bool

definition USDC :: token where
  "USDC = \<lparr>chainId = 11155111, address = ''0x1c7D4B196Cb0C7B01d743Fbc6116a902379C7238'',
            decimals = 6, symbol = ''USDC'', name = ''USD//C'',
            isToken = True, isNative = True, wrapped = False\<rparr>"

definition LINK :: token where
  "LINK = \<lparr>chainId = 11155111, address = ''0x779877A7B0D9E8603169DdbD7836e478b4624789'',
            decimals = 18, symbol = ''LINK'', name = ''Chainlink'',
            isToken = True, isNative = True, wrapped = False\<rparr>"

section \<open>The outside world\<close>

text \<open>
  The argument object of \<^verbatim>\<open>exactInputSingle\<close>, and the unsigned transactions that
  \<^verbatim>\<open>populateTransaction\<close> builds: the token and the arguments of an \<^verbatim>\<open>approve\<close>, the
  router and the argument of an \<^verbatim>\<open>exactInputSingle\<close>.
\<close>

record swap_params =
  tokenIn :: address
  tokenOut :: address
  fee :: nat
  recipient :: address
  amountIn :: int
  amountOutMinimum :: int
  sqrtPriceLimitX96 :: int

datatype transaction =
    ApproveTx address address int
  | ExactInputSingleTx address swap_params

text \<open>
  Every operation that leaves the script is a request: building a transaction, sending
  it from the wallet, waiting for the receipt of a sent transaction, the reads of the
  factory and of the pool, and the \<^verbatim>\<open>deposit\<close> method of the lending pool, which sends
  its transaction itself (contract, asset, amount, onBehalfOf, referral code).
\<close>

datatype request =
    PopulateTransaction transaction
  | SendTransaction transaction
  | Wait hash
  | GetPool address address address nat
  | Token0 address
  | Token1 address
  | Fee address
  | Deposit address address int address nat

text \<open>The function of the script that issues a request.\<close>

datatype step = ApproveToken | GetPoolInfo | PrepareSwapParams | ExecuteSwap | SupplyToAave

datatype outcome = Returned | Threw string

text \<open>
  What a run leaves behind, in order: the requests with their outcome, and the lines
  written with \<^verbatim>\<open>console.log\<close> and \<^verbatim>\<open>console.error\<close>. An object passed to the console
  is written as the string that identifies it: a transaction response or receipt as its
  hash, an error as its message.
\<close>

datatype event = Call step request outcome | Log string | LogError string

text \<open>
  The network, the contracts and the wallet are outside the script. An environment
  answers each request, knowing everything that happened before it: it either throws
  (\<open>Inl\<close>, with the message of the error) or returns. A sent transaction is known by
  its hash, and so is its receipt. \<^verbatim>\<open>getPool\<close> returns an address or \<^verbatim>\<open>null\<close>
  (\<open>None\<close>). \<open>signerAddress\<close> is the address of the wallet made from
  \<^verbatim>\<open>PRIVATE_KEY\<close>, \<open>precisionBound\<close> the largest precision the amount codec supports.
  When several requests that are pending together fail, the environment also decides
  which of them fails first in time: \<open>settlesFirst\<close> picks one of the failures.
\<close>

record env =
  signerAddress :: address
  precisionBound :: nat
  populateTransaction :: "event list \<Rightarrow> transaction \<Rightarrow> string + unit"
  sendTransaction :: "event list \<Rightarrow> transaction \<Rightarrow> string + hash"
  waitReceipt :: "event list \<Rightarrow> hash \<Rightarrow> string + hash"
  getPool :: "event list \<Rightarrow> address \<Rightarrow> address \<Rightarrow> nat \<Rightarrow> string + address option"
  token0 :: "event list \<Rightarrow> address \<Rightarrow> string + address"
  token1 :: "event list \<Rightarrow> address \<Rightarrow> string + address"
  poolFee :: "event list \<Rightarrow> address \<Rightarrow> string + nat"
  deposit :: "event list \<Rightarrow> address \<Rightarrow> int \<Rightarrow> address \<Rightarrow> nat \<Rightarrow> string + hash"
  settlesFirst :: "event list \<Rightarrow> nat"

section \<open>Asynchronous code as a state and exception monad\<close>

text \<open>
  An \<^verbatim>\<open>async\<close> function is run from the events so far and gives the events after it,
  with the value it returns (\<open>Inr\<close>) or the error it throws (\<open>Inl\<close>).
\<close>

type_synonym 'a io = "event list \<Rightarrow> (error + 'a) \<times> event list"

definition io_return :: "'a \<Rightarrow> 'a io" where
  "io_return x tr = (Inr x, tr)"

definition io_throw :: "error \<Rightarrow> 'a io" where
  "io_throw e tr = (Inl e, tr)"

definition io_of :: "error + 'a \<Rightarrow> 'a io" where
  "io_of r tr = (r, tr)"

definition io_bind :: "'a io \<Rightarrow> ('a \<Rightarrow> 'b io) \<Rightarrow> 'b io" where
  "io_bind m f tr = (case m tr of (Inl e, tr') \<Rightarrow> (Inl e, tr') | (Inr x, tr') \<Rightarrow> f x tr')"

definition io_then :: "'a io \<Rightarrow> 'b io \<Rightarrow> 'b io" where
  "io_then m n = io_bind m (\<lambda>_. n)"

definition io_catch :: "'a io \<Rightarrow> (error \<Rightarrow> 'a io) \<Rightarrow> 'a io" where
  "io_catch m h tr = (case m tr of (Inl e, tr') \<Rightarrow> h e tr' | (Inr x, tr') \<Rightarrow> (Inr x, tr'))"

definition console_log :: "string \<Rightarrow> unit io" where
  "console_log s tr = (Inr (), tr @ [Log s])"

definition console_error :: "string \<Rightarrow> unit io" where
  "console_error s tr = (Inr (), tr @ [LogError s])"

text \<open>\<^verbatim>\<open>await\<close> of a request: it is recorded with its outcome, and a rejection is thrown.\<close>

definition await :: "step \<Rightarrow> request \<Rightarrow> (event list \<Rightarrow> string + 'a) \<Rightarrow> 'a io" where
  "await st r answer tr =
     (case answer tr of
        Inl m \<Rightarrow> (Inl (Error m), tr @ [Call st r (Threw m)])
      | Inr x \<Rightarrow> (Inr x, tr @ [Call st r Returned]))"

text \<open>
  \<^verbatim>\<open>Promise.all\<close> of three requests: the array is built first, so all three requests go
  out, in the order of the array, whatever the others answer. The result is the three
  values, or the rejection of the promise that rejects first in time; which of the
  rejections that is, is for the environment to say (\<open>winner\<close>, a position in the list
  of the rejections). The events list the three requests in the order they go out, each
  with the outcome it ends with.
\<close>

definition settled :: "'a io \<Rightarrow> (error + 'a) io" where
  "settled m tr = (case m tr of (r, tr') \<Rightarrow> (Inr r, tr'))"

fun rejection :: "error + 'a \<Rightarrow> error list" where
  "rejection (Inl err) = [err]"
| "rejection (Inr x) = []"

definition chosen :: "nat \<Rightarrow> error list \<Rightarrow> error" where
  "chosen k rejs = rejs ! (k mod length rejs)"

definition first_rejection :: "(event list \<Rightarrow> nat) \<Rightarrow> error list \<Rightarrow> 'a io" where
  "first_rejection winner rejs tr = (Inl (chosen (winner tr) rejs), tr)"

definition promise_all3 ::
  "(event list \<Rightarrow> nat) \<Rightarrow> 'a io \<Rightarrow> 'b io \<Rightarrow> 'c io \<Rightarrow> ('a \<times> 'b \<times> 'c) io" where
  "promise_all3 winner a b c =
     io_bind (settled a) (\<lambda>ra. io_bind (settled b) (\<lambda>rb. io_bind (settled c) (\<lambda>rc.
       (case (ra, rb, rc) of
          (Inr x, Inr y, Inr z) \<Rightarrow> io_return (x, y, z)
        | _ \<Rightarrow> first_rejection winner (rejection ra @ rejection rb @ rejection rc)))))"

text \<open>The three calls into the ethers library that submit and confirm a transaction.\<close>

definition populate :: "env \<Rightarrow> step \<Rightarrow> transaction \<Rightarrow> transaction io" where
  "populate e st tx =
     io_then (await st (PopulateTransaction tx) (\<lambda>tr. populateTransaction e tr tx)) (io_return tx)"

definition send :: "env \<Rightarrow> step \<Rightarrow> transaction \<Rightarrow> hash io" where
  "send e st tx = await st (SendTransaction tx) (\<lambda>tr. sendTransaction e tr tx)"

definition wait :: "env \<Rightarrow> step \<Rightarrow> hash \<Rightarrow> hash io" where
  "wait e st h = await st (Wait h) (\<lambda>tr. waitReceipt e tr h)"

section \<open>The script\<close>

definition dashes :: string where
  "dashes = ''-------------------------------''"

text \<open>Part A. The amount is the caller's decimal string, \<^verbatim>\<open>amount.toString()\<close>.\<close>

definition approveToken :: "env \<Rightarrow> address \<Rightarrow> string \<Rightarrow> unit io" where
  "approveToken e tokenAddress amount =
     io_catch
       (io_bind (io_of (parseUnits (precisionBound e) amount (decimals USDC))) (\<lambda>approveAmount.
        io_bind (populate e ApproveToken
                   (ApproveTx tokenAddress SWAP_ROUTER_CONTRACT_ADDRESS approveAmount))
          (\<lambda>approveTransaction.
        io_bind (send e ApproveToken approveTransaction) (\<lambda>transactionResponse.
        io_then (console_log dashes) (
        io_then (console_log ''Sending Approval Transaction...'') (
        io_then (console_log dashes) (
        io_then (console_log (''Transaction Sent: '' @ transactionResponse)) (
        io_then (console_log dashes) (
        io_bind (wait e ApproveToken transactionResponse) (\<lambda>receipt.
        console_log
          (''Approval Transaction Confirmed! https://sepolia.etherscan.io/tx/'' @ receipt)))))))))))
       (\<lambda>error.
        io_then (console_error (''An error occurred during token approval: '' @ message error))
                (io_throw (Error ''Token approval failed'')))"

text \<open>
  Part B. \<^verbatim>\<open>!poolAddress\<close> holds of \<^verbatim>\<open>null\<close> and of the empty string, and of no other
  string. Past that check the address is a string, so the \<open>None\<close> case that follows
  it is never taken.
\<close>

definition falsy :: "address option \<Rightarrow> bool" where
  "falsy a = (case a of None \<Rightarrow> True | Some s \<Rightarrow> s = [])"

definition getPoolInfo :: "env \<Rightarrow> token \<Rightarrow> token \<Rightarrow> (address \<times> address \<times> address \<times> nat) io" where
  "getPoolInfo e tIn tOut =
     io_bind (await GetPoolInfo
                (GetPool POOL_FACTORY_CONTRACT_ADDRESS (address tIn) (address tOut) 3000)
                (\<lambda>tr. getPool e tr (address tIn) (address tOut) 3000)) (\<lambda>poolAddress.
     if falsy poolAddress then io_throw (Error ''Failed to get pool address'')
     else (case poolAddress of
             None \<Rightarrow> io_throw (Error ''Failed to get pool address'')
           | Some poolContract \<Rightarrow>
               io_bind (promise_all3 (settlesFirst e)
                          (await GetPoolInfo (Token0 poolContract) (\<lambda>tr. token0 e tr poolContract))
                          (await GetPoolInfo (Token1 poolContract) (\<lambda>tr. token1 e tr poolContract))
                          (await GetPoolInfo (Fee poolContract) (\<lambda>tr. poolFee e tr poolContract)))
                 (\<lambda>(t0, t1, f). io_return (poolContract, t0, t1, f))))"

text \<open>Part C.\<close>

definition prepareSwapParams :: "env \<Rightarrow> address \<Rightarrow> int \<Rightarrow> swap_params io" where
  "prepareSwapParams e poolContract amount =
     io_bind (await PrepareSwapParams (Fee poolContract) (\<lambda>tr. poolFee e tr poolContract)) (\<lambda>f.
     io_return \<lparr>tokenIn = address USDC, tokenOut = address LINK, fee = f,
                recipient = signerAddress e, amountIn = amount,
                amountOutMinimum = 0, sqrtPriceLimitX96 = 0\<rparr>)"

text \<open>Part D. What the source names \<^verbatim>\<open>receipt\<close> is the response of \<^verbatim>\<open>sendTransaction\<close>.\<close>

definition executeSwap :: "env \<Rightarrow> address \<Rightarrow> swap_params \<Rightarrow> unit io" where
  "executeSwap e swapRouter params =
     io_bind (populate e ExecuteSwap (ExactInputSingleTx swapRouter params)) (\<lambda>transaction.
     io_bind (send e ExecuteSwap transaction) (\<lambda>receipt.
     io_then (console_log dashes) (
     io_then (console_log (''Receipt: https://sepolia.etherscan.io/tx/'' @ receipt)) (
     console_log dashes))))"

text \<open>Part E.\<close>

definition supplyToAave :: "env \<Rightarrow> address \<Rightarrow> int \<Rightarrow> unit io" where
  "supplyToAave e tokenAddress amount =
     io_catch
       (io_bind (populate e SupplyToAave (ApproveTx tokenAddress AAVE_LENDING_POOL_ADDRESS amount))
          (\<lambda>approveTransaction.
        io_bind (send e SupplyToAave approveTransaction) (\<lambda>approvalResponse.
        io_bind (wait e SupplyToAave approvalResponse) (\<lambda>_.
        io_bind (await SupplyToAave
                   (Deposit AAVE_LENDING_POOL_ADDRESS tokenAddress amount (signerAddress e) 0)
                   (\<lambda>tr. deposit e tr tokenAddress amount (signerAddress e) 0))
          (\<lambda>supplyTransaction.
        io_then (console_log (''Supply Transaction: '' @ supplyTransaction)) (
        io_bind (wait e SupplyToAave supplyTransaction) (\<lambda>supplyResponse.
        io_then (console_log (''Supply Response: '' @ supplyResponse)) (
        io_then (console_log (''Successfully supplied '' @ formatUnits amount (decimals LINK)
                              @ '' LINK to Aave.'')) (
        console_log (''Transaction Hash: https://sepolia.etherscan.io/tx/'' @ supplyTransaction))))))))))
       (\<lambda>error.
        io_then (console_error (''An error occurred while supplying tokens to Aave: ''
                                @ message error))
                (io_throw (Error ''Aave supply failed'')))"

text \<open>
  Part F. \<open>main_try\<close> is the \<^verbatim>\<open>try\<close> block of \<^verbatim>\<open>main\<close>; the conversion of the amount
  comes before it, so its error is not caught. The argument is the decimal string
  \<^verbatim>\<open>swapAmount.toString()\<close>: \<^verbatim>\<open>main(1)\<close> is \<open>main e ''1''\<close>.
\<close>

definition main_try :: "env \<Rightarrow> string \<Rightarrow> int \<Rightarrow> unit io" where
  "main_try e inputAmount amount =
     io_then (approveToken e (address USDC) inputAmount) (
     io_bind (getPoolInfo e USDC LINK) (\<lambda>(poolContract, t0, t1, f).
     io_bind (prepareSwapParams e poolContract amount) (\<lambda>params.
     io_then (executeSwap e SWAP_ROUTER_CONTRACT_ADDRESS params) (
     supplyToAave e (address LINK) (amountIn params)))))"

definition main :: "env \<Rightarrow> string \<Rightarrow> unit io" where
  "main e swapAmount =
     io_bind (io_of (parseUnits (precisionBound e) swapAmount (decimals USDC))) (\<lambda>amount.
     io_catch (main_try e swapAmount amount)
       (\<lambda>error. console_error (''An error occurred: '' @ message error)))"

section \<open>Observing a run\<close>

definition trace :: "env \<Rightarrow> string \<Rightarrow> event list" where
  "trace e a = snd (main e a [])"

fun is_call :: "event \<Rightarrow> bool" where
  "is_call (Call st r oc) = True"
| "is_call ev = False"

fun failed_call :: "event \<Rightarrow> bool" where
  "failed_call (Call st r (Threw m)) = True"
| "failed_call ev = False"

fun is_error_log :: "event \<Rightarrow> bool" where
  "is_error_log (LogError s) = True"
| "is_error_log ev = False"

text \<open>No request of the run threw; nothing was written to \<^verbatim>\<open>console.error\<close>.\<close>

definition all_returned :: "event list \<Rightarrow> bool" where
  "all_returned evs = list_all (\<lambda>ev. \<not> failed_call ev) evs"

definition no_error_logged :: "event list \<Rightarrow> bool" where
  "no_error_logged evs = list_all (\<lambda>ev. \<not> is_error_log ev) evs"


text \<open>The requests of a run, and those among them that submit a transaction.\<close>

fun requests :: "event list \<Rightarrow> request list" where
  "requests [] = []"
| "requests (Call st r oc # evs) = r # requests evs"
| "requests (ev # evs) = requests evs"

fun is_submission :: "request \<Rightarrow> bool" where
  "is_submission (SendTransaction tx) = True"
| "is_submission (Deposit c a n w r) = True"
| "is_submission r = False"

definition submissions :: "event list \<Rightarrow> request list" where
  "submissions evs = filter is_submission (requests evs)"

text \<open>
  Every submission is confirmed before the next one goes out: no transaction is submitted
  while the one before it has not been waited for.
\<close>

fun confirmed_in_turn :: "bool \<Rightarrow> request list \<Rightarrow> bool" where
  "confirmed_in_turn pending [] = True"
| "confirmed_in_turn pending (Wait h # rs) = confirmed_in_turn False rs"
| "confirmed_in_turn pending (r # rs) =
     (if is_submission r then \<not> pending \<and> confirmed_in_turn True rs
      else confirmed_in_turn pending rs)"

text \<open>
  Fail-fast: once a request has thrown, no request follows it. The reads that
  \<^verbatim>\<open>Promise.all\<close> issues together are the one exception: they all go out.
\<close>

fun is_pool_read :: "request \<Rightarrow> bool" where
  "is_pool_read (Token0 p) = True"
| "is_pool_read (Token1 p) = True"
| "is_pool_read (Fee p) = True"
| "is_pool_read r = False"

fun sibling_read :: "event \<Rightarrow> bool" where
  "sibling_read (Call st r oc) = (st = GetPoolInfo \<and> is_pool_read r)"
| "sibling_read ev = True"

fun fail_fast :: "event list \<Rightarrow> bool" where
  "fail_fast [] = True"
| "fail_fast (Call st r (Threw m) # evs) =
     (list_all (\<lambda>ev. \<not> is_call ev) evs \<or>
      st = GetPoolInfo \<and> is_pool_read r \<and> list_all sibling_read evs)"
| "fail_fast (ev # evs) = fail_fast evs"

text \<open>The steps in the order of the pipeline.\<close>

fun step_index :: "step \<Rightarrow> nat" where
  "step_index ApproveToken = 0"
| "step_index GetPoolInfo = 1"
| "step_index PrepareSwapParams = 2"
| "step_index ExecuteSwap = 3"
| "step_index SupplyToAave = 4"

text \<open>A step has failed when one of its requests threw; it was invoked when it issued one.\<close>

definition step_failed :: "step \<Rightarrow> event list \<Rightarrow> bool" where
  "step_failed st evs = list_ex (\<lambda>ev. case ev of Call s r (Threw m) \<Rightarrow> s = st | _ \<Rightarrow> False) evs"

definition step_invoked :: "step \<Rightarrow> event list \<Rightarrow> bool" where
  "step_invoked st evs = list_ex (\<lambda>ev. case ev of Call s r oc \<Rightarrow> s = st | _ \<Rightarrow> False) evs"

text \<open>
  The first of the requests, in the order they went out, that threw, with its step and
  the message of its error.
\<close>

fun first_failure :: "event list \<Rightarrow> (step \<times> string) option" where
  "first_failure [] = None"
| "first_failure (Call st r (Threw m) # evs) = Some (st, m)"
| "first_failure (ev # evs) = first_failure evs"

text \<open>All the requests that threw, each with its step and the message of its error.\<close>

fun failures :: "event list \<Rightarrow> (step \<times> string) list" where
  "failures [] = []"
| "failures (Call st r (Threw m) # evs) = (st, m) # failures evs"
| "failures (ev # evs) = failures evs"

text \<open>
  The message \<^verbatim>\<open>main\<close> ends up with when a request of the given step threw the given
  message: \<^verbatim>\<open>approveToken\<close> and \<^verbatim>\<open>supplyToAave\<close> replace the error by one of their own,
  the other steps let it through.
\<close>

fun reported :: "step \<Rightarrow> string \<Rightarrow> string" where
  "reported ApproveToken m = ''Token approval failed''"
| "reported SupplyToAave m = ''Aave supply failed''"
| "reported st m = m"

text \<open>The token amount a request carries, if it carries one.\<close>

fun request_amount :: "request \<Rightarrow> int option" where
  "request_amount (PopulateTransaction (ApproveTx t s n)) = Some n"
| "request_amount (PopulateTransaction (ExactInputSingleTx r p)) = Some (amountIn p)"
| "request_amount (SendTransaction (ApproveTx t s n)) = Some n"
| "request_amount (SendTransaction (ExactInputSingleTx r p)) = Some (amountIn p)"
| "request_amount (Deposit c a n w r) = Some n"
| "request_amount r = None"

text \<open>
  Any step's failure aborts the remaining steps: when a request of a step threw, no
  request of a later step is in the run.
\<close>

fun step_indices :: "event list \<Rightarrow> nat list" where
  "step_indices [] = []"
| "step_indices (Call st r oc # evs) = step_index st # step_indices evs"
| "step_indices (ev # evs) = step_indices evs"

definition aborts_remaining :: "event list \<Rightarrow> bool" where
  "aborts_remaining evs =
     list_all (\<lambda>ev. case ev of
                 Call st r (Threw m) \<Rightarrow> list_all (\<lambda>i. i \<le> step_index st) (step_indices evs)
               | _ \<Rightarrow> True) evs"

text \<open>
  What holds of every run of one function of the script, whatever the events before it:
  its requests belong to its step and satisfy \<open>R\<close>, the run is fail-fast, a value it
  returns satisfies \<open>P\<close> and then no request threw, and an error it throws when requests
  threw has the message \<open>rep s m\<close> for one of them, of step \<open>s\<close> and message \<open>m\<close>.
\<close>

definition blames :: "(step \<Rightarrow> string \<Rightarrow> string) \<Rightarrow> event list \<Rightarrow> error \<Rightarrow> bool" where
  "blames rep evs err =
     (failures evs = [] \<or> list_ex (\<lambda>(s, m). message err = rep s m) (failures evs))"

fun from_step :: "step \<Rightarrow> (request \<Rightarrow> bool) \<Rightarrow> event \<Rightarrow> bool" where
  "from_step st R (Call s r oc) = (s = st \<and> R r)"
| "from_step st R ev = True"

definition stage :: "step \<Rightarrow> (request \<Rightarrow> bool) \<Rightarrow> (string \<Rightarrow> string) \<Rightarrow> ('a \<Rightarrow> bool) \<Rightarrow> 'a io \<Rightarrow> bool" where
  "stage st R rep P m =
     (\<forall>tr. \<exists>evs. snd (m tr) = tr @ evs \<and> list_all (from_step st R) evs \<and> fail_fast evs \<and>
        (case fst (m tr) of
           Inr x \<Rightarrow> all_returned evs \<and> P x
         | Inl err \<Rightarrow> blames (\<lambda>s. rep) evs err))"

text \<open>
  The same for a run of several steps in a row, none before the \<open>k\<close>-th: the requests
  come in the order of the steps.
\<close>

fun from_steps :: "nat \<Rightarrow> (request \<Rightarrow> bool) \<Rightarrow> event \<Rightarrow> bool" where
  "from_steps k R (Call s r oc) = (k \<le> step_index s \<and> R r)"
| "from_steps k R ev = True"

definition pipeline :: "nat \<Rightarrow> (request \<Rightarrow> bool) \<Rightarrow> 'a io \<Rightarrow> bool" where
  "pipeline k R m =
     (\<forall>tr. \<exists>evs. snd (m tr) = tr @ evs \<and> list_all (from_steps k R) evs \<and>
        sorted (step_indices evs) \<and> fail_fast evs \<and>
        (case fst (m tr) of
           Inr x \<Rightarrow> all_returned evs
         | Inl err \<Rightarrow> blames reported evs err))"

text \<open>A negative amount is written with a leading minus sign.\<close>

definition negative :: "string \<Rightarrow> bool" where
  "negative a = (a \<noteq> [] \<and> hd a = CHR ''-'')"

section \<open>Sample environments\<close>

text \<open>A network on which every request succeeds, with a pool for the pair.\<close>

definition mock_env :: env where
  "mock_env =
     \<lparr>signerAddress = ''0x5196e2'', precisionBound = 18,
      populateTransaction = (\<lambda>tr tx. Inr ()),
      sendTransaction = (\<lambda>tr tx. Inr (case tx of
          ApproveTx t s n \<Rightarrow> (if s = SWAP_ROUTER_CONTRACT_ADDRESS then ''0xa1'' else ''0xa3'')
        | ExactInputSingleTx r p \<Rightarrow> ''0xb2'')),
      waitReceipt = (\<lambda>tr h. Inr h),
      getPool = (\<lambda>tr a b f. Inr (Some ''0x9001'')),
      token0 = (\<lambda>tr p. Inr (address LINK)),
      token1 = (\<lambda>tr p. Inr (address USDC)),
      poolFee = (\<lambda>tr p. Inr 3000),
      deposit = (\<lambda>tr t n w r. Inr ''0xd4''),
      settlesFirst = (\<lambda>tr. 0)\<rparr>"

text \<open>The swap transaction is rejected when it is sent.\<close>

definition swap_rejected_env :: env where
  "swap_rejected_env =
     mock_env\<lparr>sendTransaction := (\<lambda>tr tx. case tx of
          ApproveTx t s n \<Rightarrow> Inr ''0xa1''
        | ExactInputSingleTx r p \<Rightarrow> Inl ''network unavailable'')\<rparr>"

text \<open>The swap transaction is sent and then reverts: its receipt would be a failure.\<close>

definition swap_reverted_env :: env where
  "swap_reverted_env =
     mock_env\<lparr>waitReceipt := (\<lambda>tr h. if h = ''0xb2'' then Inl ''execution reverted'' else Inr h)\<rparr>"

text \<open>Two of the pool reads fail, and the one listed second fails first.\<close>

definition racing_reads_env :: env where
  "racing_reads_env =
     mock_env\<lparr>token0 := (\<lambda>tr p. Inl ''slow failure''),
              token1 := (\<lambda>tr p. Inl ''fast failure''),
              settlesFirst := (\<lambda>tr. 1)\<rparr>"

text \<open>The factory cannot be reached.\<close>

definition factory_down_env :: env where
  "factory_down_env = mock_env\<lparr>getPool := (\<lambda>tr a b f. Inl ''network unavailable'')\<rparr>"

text \<open>
  There is no pool for the pair: the factory returns the zero address. In the first
  environment the reads at that address still answer, as a mock of the pool contract
  does; in the second they fail to decode, as on a network with no contract there.
\<close>

definition zero_address :: address where
  "zero_address = ''0x0000000000000000000000000000000000000000''"

definition no_pool_env :: env where
  "no_pool_env = mock_env\<lparr>getPool := (\<lambda>tr a b f. Inr (Some zero_address))\<rparr>"

definition no_pool_live_env :: env where
  "no_pool_live_env =
     no_pool_env\<lparr>token0 := (\<lambda>tr p. Inl ''could not decode result data''),
                  token1 := (\<lambda>tr p. Inl ''could not decode result data''),
                  poolFee := (\<lambda>tr p. Inl ''could not decode result data'')\<rparr>"

section \<open>Properties of the amount codec\<close>

lemma below_ten_cases:
  "d < 10 \<Longrightarrow> d = 0 \<or> d = 1 \<or> d = 2 \<or> d = 3 \<or> d = 4 \<or> d = 5 \<or> d = 6 \<or> d = 7 \<or> d = 8 \<or> d = (9::nat)"
  by arith
lemma digit_val_char: "d < 10 \<Longrightarrow> digit_val (digit_char d) = d"
  by (drule below_ten_cases, elim disjE) (simp_all add: digit_val_def digit_char_def digit_chars_def)
lemma is_digit_char: "is_digit (digit_char d)"
proof -
  have "d mod 10 < 10" by simp
  then have "is_digit (digit_chars ! (d mod 10))"
    by (drule_tac below_ten_cases, elim disjE) (simp_all add: is_digit_def digit_chars_def)
  then show ?thesis by (simp add: digit_char_def)
qed
lemma digit_char_val: "is_digit c \<Longrightarrow> digit_char (digit_val c) = c"
  by (auto simp: is_digit_def digit_val_def digit_char_def digit_chars_def)
lemma digit_val_lt: "is_digit c \<Longrightarrow> digit_val c < 10"
  by (auto simp: is_digit_def digit_val_def digit_chars_def)
lemma digit_char_zero: "digit_char 0 = CHR ''0''"
  by (simp add: digit_char_def digit_chars_def)
lemma digit_val_zero_iff: "is_digit c \<Longrightarrow> digit_val c = 0 \<longleftrightarrow> c = CHR ''0''"
  by (auto simp: is_digit_def digit_val_def digit_chars_def)
lemma is_digit_not_point: "is_digit c \<Longrightarrow> c \<noteq> CHR ''.''"
  by (auto simp: is_digit_def digit_chars_def)

lemma digits_val_Nil: "digits_val [] = 0"
  by (simp add: digits_val_def)
lemma digits_val_single: "digits_val [c] = digit_val c"
  by (simp add: digits_val_def)
lemma digits_val_snoc: "digits_val (ds @ [c]) = 10 * digits_val ds + digit_val c"
  by (simp add: digits_val_def)

lemma digits_val_bound: "list_all is_digit ds \<Longrightarrow> digits_val ds < 10 ^ length ds"
proof (induction ds rule: rev_induct)
  case Nil
  show ?case by (simp add: digits_val_Nil)
next
  case (snoc c ds)
  then have "digits_val ds < 10 ^ length ds" and "digit_val c < 10"
    by (simp_all add: digit_val_lt)
  then have "10 * digits_val ds + digit_val c < 10 * 10 ^ length ds" by arith
  then show ?case by (simp add: digits_val_snoc)
qed

lemma fixed_digits_val:
  "list_all is_digit ds \<Longrightarrow> fixed_digits (length ds) (digits_val ds) = ds"
proof (induction ds rule: rev_induct)
  case Nil
  show ?case by simp
next
  case (snoc c ds)
  then have d: "digit_val c < 10" and c: "digit_char (digit_val c) = c"
    and ih: "fixed_digits (length ds) (digits_val ds) = ds"
    by (simp_all add: digit_val_lt digit_char_val)
  from d have "(10 * digits_val ds + digit_val c) div 10 = digits_val ds"
    and "(10 * digits_val ds + digit_val c) mod 10 = digit_val c" by simp_all
  with c ih show ?case by (simp add: digits_val_snoc)
qed

lemma fixed_digits_shift:
  "fixed_digits (j + k) (n * 10 ^ j) = fixed_digits k n @ replicate j (CHR ''0'')"
proof (induction j)
  case 0
  show ?case by simp
next
  case (Suc j)
  have "n * 10 ^ Suc j div 10 = n * 10 ^ j" and "n * 10 ^ Suc j mod 10 = 0" by simp_all
  with Suc show ?case
    by (simp add: digit_char_zero replicate_append_same del: power_Suc)
qed

lemma digits_val_pos:
  "list_all is_digit ds \<Longrightarrow> ds \<noteq> [] \<Longrightarrow> hd ds \<noteq> CHR ''0'' \<Longrightarrow> 0 < digits_val ds"
proof (induction ds rule: rev_induct)
  case Nil
  then show ?case by simp
next
  case (snoc c ds)
  show ?case
  proof (cases "ds = []")
    case True
    with snoc.prems show ?thesis
      using digit_val_zero_iff [of c] by (simp add: digits_val_single)
  next
    case False
    with snoc have "0 < digits_val ds" by simp
    then show ?thesis by (simp add: digits_val_snoc)
  qed
qed

lemma to_digits_val: "valid_whole ds \<Longrightarrow> to_digits (digits_val ds) = ds"
proof (induction ds rule: rev_induct)
  case Nil
  then show ?case by (simp add: valid_whole_def)
next
  case (snoc c ds)
  then have c: "is_digit c" and ds: "list_all is_digit ds"
    by (simp_all add: valid_whole_def)
  show ?case
  proof (cases "ds = []")
    case True
    with c show ?thesis
      by (simp add: digits_val_single to_digits.simps digit_val_lt digit_char_val)
  next
    case False
    with snoc.prems have hd: "hd ds \<noteq> CHR ''0''"
      by (cases ds) (auto simp: valid_whole_def)
    with ds False have pos: "0 < digits_val ds" by (simp add: digits_val_pos)
    from ds False hd have "valid_whole ds" by (simp add: valid_whole_def)
    then have ih: "to_digits (digits_val ds) = ds" by (rule snoc.IH)
    from c have d: "digit_val c < 10" by (rule digit_val_lt)
    from pos have "\<not> 10 * digits_val ds + digit_val c < 10" by simp
    moreover from d have "(10 * digits_val ds + digit_val c) div 10 = digits_val ds"
      and "(10 * digits_val ds + digit_val c) mod 10 = digit_val c" by simp_all
    ultimately show ?thesis
      using ih c by (simp add: digits_val_snoc to_digits.simps [of "10 * digits_val ds + digit_val c"] digit_char_val)
  qed
qed
lemma whole_part_split: "CHR ''.'' \<notin> set w \<Longrightarrow> whole_part (w @ CHR ''.'' # r) = w"
  by (induction w) (auto simp: whole_part_def)
lemma fraction_part_split: "CHR ''.'' \<notin> set w \<Longrightarrow> fraction_part (w @ CHR ''.'' # r) = r"
  by (induction w) (auto simp: fraction_part_def)
lemma whole_part_no_point: "CHR ''.'' \<notin> set s \<Longrightarrow> whole_part s = s"
  by (induction s) (auto simp: whole_part_def)
lemma fraction_part_no_point: "CHR ''.'' \<notin> set s \<Longrightarrow> fraction_part s = []"
  by (induction s) (auto simp: fraction_part_def)
lemma digits_no_point: "list_all is_digit ds \<Longrightarrow> CHR ''.'' \<notin> set ds"
  by (auto simp: list_all_iff dest: is_digit_not_point)
lemma dropWhile_replicate_same:
  "dropWhile (\<lambda>c. c = z) (replicate j z @ xs) = dropWhile (\<lambda>c. c = z) xs"
  by (induction j) simp_all
lemma strip_zeros_replicate: "strip_zeros (f @ replicate j (CHR ''0'')) = strip_zeros f"
  by (simp add: strip_zeros_def dropWhile_replicate_same)
lemma parse_value_split:
  assumes "list_all is_digit f" and "length f \<le> p"
  shows "(w * 10 ^ p + digits_val f * 10 ^ (p - length f)) div 10 ^ p = w"
    and "(w * 10 ^ p + digits_val f * 10 ^ (p - length f)) mod 10 ^ p = digits_val f * 10 ^ (p - length f)"
proof -
  from assms(1) have "digits_val f < 10 ^ length f" by (rule digits_val_bound)
  then have "digits_val f * 10 ^ (p - length f) < 10 ^ length f * 10 ^ (p - length f)"
    by simp
  also from assms(2) have "\<dots> = (10::nat) ^ p" by (simp flip: power_add)
  finally have lt: "digits_val f * 10 ^ (p - length f) < 10 ^ p" .
  then show "(w * 10 ^ p + digits_val f * 10 ^ (p - length f)) div 10 ^ p = w" by simp
  from lt show "(w * 10 ^ p + digits_val f * 10 ^ (p - length f)) mod 10 ^ p = digits_val f * 10 ^ (p - length f)"
    by simp
qed

lemma format_parsed:
  assumes "valid_whole w" and "list_all is_digit f" and "length f \<le> p"
  shows "format_nat (digits_val w * 10 ^ p + digits_val f * 10 ^ (p - length f)) p =
           w @ (if p = 0 then [] else CHR ''.'' # f @ replicate (p - length f) (CHR ''0''))"
proof -
  define x where "x = digits_val w * 10 ^ p + digits_val f * 10 ^ (p - length f)"
  from assms(2,3) have d: "x div 10 ^ p = digits_val w"
    and m: "x mod 10 ^ p = digits_val f * 10 ^ (p - length f)"
    unfolding x_def by (rule parse_value_split)+
  from assms(3) have "p = (p - length f) + length f" by simp
  then have "fixed_digits p (digits_val f * 10 ^ (p - length f)) =
      fixed_digits (length f) (digits_val f) @ replicate (p - length f) (CHR ''0'')"
    using fixed_digits_shift [of "p - length f" "length f" "digits_val f"] by simp
  with assms(2) have fx: "fixed_digits p (x mod 10 ^ p) = f @ replicate (p - length f) (CHR ''0'')"
    by (simp add: m fixed_digits_val)
  from assms(1) have "to_digits (x div 10 ^ p) = w" by (simp add: d to_digits_val)
  with fx have "format_nat x p = w @ (if p = 0 then [] else CHR ''.'' # f @ replicate (p - length f) (CHR ''0''))"
    by (simp only: format_nat_def)
  then show ?thesis by (simp only: x_def)
qed

lemma normalise_padded:
  assumes "CHR ''.'' \<notin> set w"
  shows "normalise (w @ CHR ''.'' # f @ replicate j (CHR ''0'')) =
         (if strip_zeros f = [] then w else w @ CHR ''.'' # strip_zeros f)"
  using assms
  by (simp add: normalise_def whole_part_split fraction_part_split strip_zeros_replicate Let_def)

lemma normalise_valid:
  assumes "valid_amount a"
  shows "normalise a = (if strip_zeros (fraction_part a) = [] then whole_part a
                        else whole_part a @ CHR ''.'' # strip_zeros (fraction_part a))"
proof (cases "CHR ''.'' \<in> set a")
  case True
  then show ?thesis by (simp add: normalise_def Let_def)
next
  case False
  then show ?thesis
    by (simp add: normalise_def whole_part_no_point fraction_part_no_point strip_zeros_def)
qed

lemma parseUnits_valid:
  assumes "p \<le> bound" and "valid_amount a" and "length (fraction_part a) \<le> p"
  shows "parseUnits bound a p =
     Inr (int (digits_val (whole_part a) * 10 ^ p
               + digits_val (fraction_part a) * 10 ^ (p - length (fraction_part a))))"
  using assms by (simp add: parseUnits_def)

lemma fraction_digits: "valid_amount a \<Longrightarrow> list_all is_digit (fraction_part a)"
  by (cases "CHR ''.'' \<in> set a") (simp_all add: valid_amount_def fraction_part_no_point)

lemma formatUnits_int: "formatUnits (int n) p = format_nat n p"
  by (simp add: formatUnits_def)

lemma digits_val_to_digits: "digits_val (to_digits n) = n"
proof (induction n rule: to_digits.induct)
  case (1 n)
  show ?case
  proof (cases "n < 10")
    case True
    then show ?thesis by (simp add: to_digits.simps [of n] digits_val_single digit_val_char)
  next
    case False
    with 1 have "digits_val (to_digits (n div 10)) = n div 10" by simp
    with False show ?thesis
      by (simp add: to_digits.simps [of n] digits_val_snoc digit_val_char)
  qed
qed

lemma to_digits_digits: "list_all is_digit (to_digits n)"
proof (induction n rule: to_digits.induct)
  case (1 n)
  then show ?case by (cases "n < 10") (simp_all add: to_digits.simps [of n] is_digit_char)
qed

lemma to_digits_not_Nil: "to_digits n \<noteq> []"
  by (cases "n < 10") (simp_all add: to_digits.simps [of n])

lemma to_digits_zero: "to_digits 0 = ''0''"
  by (simp add: to_digits.simps [of 0] digit_char_zero)

lemma to_digits_hd: "hd (to_digits n) = CHR ''0'' \<Longrightarrow> n = 0"
proof (induction n rule: to_digits.induct)
  case (1 n)
  show ?case
  proof (cases "n < 10")
    case True
    with 1(2) have "digit_char n = CHR ''0''" by (simp add: to_digits.simps [of n])
    moreover have "digit_val (CHR ''0'') = 0" by (simp add: digit_val_def digit_chars_def)
    moreover from True have "digit_val (digit_char n) = n" by (rule digit_val_char)
    ultimately show ?thesis by simp
  next
    case False
    with 1(2) have "hd (to_digits (n div 10)) = CHR ''0''"
      by (simp add: to_digits.simps [of n] to_digits_not_Nil)
    with 1(1) False have "n div 10 = 0" by simp
    with False show ?thesis by simp
  qed
qed

lemma to_digits_valid: "valid_whole (to_digits n)"
  using to_digits_hd [of n]
  by (auto simp: valid_whole_def to_digits_digits to_digits_not_Nil to_digits_zero)

lemma length_fixed_digits: "length (fixed_digits k n) = k"
  by (induction k arbitrary: n) simp_all

lemma fixed_digits_digits: "list_all is_digit (fixed_digits k n)"
  by (induction k arbitrary: n) (simp_all add: is_digit_char)

lemma digits_val_fixed: "digits_val (fixed_digits k n) = n mod 10 ^ k"
proof (induction k arbitrary: n)
  case 0
  show ?case by (simp add: digits_val_Nil)
next
  case (Suc k)
  have "n mod (10 * 10 ^ k) = 10 * (n div 10 mod 10 ^ k) + n mod 10"
    by (rule mod_mult2_eq)
  with Suc show ?case by (simp add: digits_val_snoc digit_val_char)
qed

lemma parse_formatted:
  assumes "p \<le> bound"
  shows "parseUnits bound (format_nat n p) p = Inr (int n)"
proof (cases "p = 0")
  case True
  have np: "CHR ''.'' \<notin> set (to_digits n)" by (rule digits_no_point) (rule to_digits_digits)
  with True show ?thesis
    by (simp add: parseUnits_def format_nat_def valid_amount_def whole_part_no_point
        fraction_part_no_point to_digits_valid digits_val_to_digits digits_val_Nil)
next
  case False
  let ?w = "to_digits (n div 10 ^ p)" and ?f = "fixed_digits p (n mod 10 ^ p)"
  have np: "CHR ''.'' \<notin> set ?w" by (rule digits_no_point) (rule to_digits_digits)
  have fmt: "format_nat n p = ?w @ CHR ''.'' # ?f" using False by (simp add: format_nat_def)
  have w: "whole_part (format_nat n p) = ?w" and f: "fraction_part (format_nat n p) = ?f"
    unfolding fmt using np by (simp_all add: whole_part_split fraction_part_split)
  have "?f \<noteq> []" using False length_fixed_digits [of p "n mod 10 ^ p"] by auto
  then have v: "valid_amount (format_nat n p)"
    by (simp add: valid_amount_def w f to_digits_valid fixed_digits_digits)
  have "n div 10 ^ p * 10 ^ p + n mod 10 ^ p = n" by (rule div_mult_mod_eq)
  with assms v show ?thesis
    by (simp add: parseUnits_def w f length_fixed_digits digits_val_to_digits digits_val_fixed)
qed

lemma parse_rescale:
  assumes "parseUnits bound a p = Inr x" and "p + j \<le> bound"
  shows "parseUnits bound a (p + j) = Inr (x * 10 ^ j)"
proof -
  from assms(1) have v: "valid_amount a" and l: "length (fraction_part a) \<le> p"
    and x: "x = int (digits_val (whole_part a) * 10 ^ p
                 + digits_val (fraction_part a) * 10 ^ (p - length (fraction_part a)))"
    by (auto simp: parseUnits_def split: if_splits)
  from l have "p + j - length (fraction_part a) = (p - length (fraction_part a)) + j" by simp
  then have "digits_val (whole_part a) * 10 ^ (p + j)
        + digits_val (fraction_part a) * 10 ^ (p + j - length (fraction_part a))
      = (digits_val (whole_part a) * 10 ^ p
         + digits_val (fraction_part a) * 10 ^ (p - length (fraction_part a))) * 10 ^ j"
    by (simp add: power_add algebra_simps)
  with v l assms(2) show ?thesis by (simp add: parseUnits_def x)
qed

lemma parseUnits_nonneg: "parseUnits bound a p = Inr x \<Longrightarrow> 0 \<le> x"
  by (auto simp: parseUnits_def split: if_splits)

lemma negative_invalid: "negative a \<Longrightarrow> \<not> valid_amount a"
  by (cases a) (auto simp: negative_def valid_amount_def valid_whole_def whole_part_def
      is_digit_def digit_chars_def)

lemma fixed_digits_numeral:
  "fixed_digits (numeral k) n = fixed_digits (pred_numeral k) (n div 10) @ [digit_char (n mod 10)]"
  using fixed_digits.simps(2) [of "pred_numeral k" n] by (simp only: numeral_eq_Suc)

lemma fixed_digits_one: "fixed_digits 1 n = [digit_char (n mod 10)]"
  using fixed_digits.simps(2) [of 0 n] by (simp only: One_nat_def fixed_digits.simps(1) append_Nil)

lemmas amount_defs = valid_amount_def valid_whole_def whole_part_def fraction_part_def
  is_digit_def digit_val_def digit_chars_def digits_val_def

lemmas format_defs = formatUnits_def format_nat_def to_digits.simps fixed_digits_numeral
  fixed_digits_one digit_char_def digit_chars_def

text \<open>
  Claim C8. For every valid decimal amount \<open>a\<close> and every supported precision \<open>p\<close>
  (the supported bound is at least 18) that can hold the fractional digits of \<open>a\<close>,
  converting \<open>a\<close> to base units succeeds, exactly, and converting the base units back
  gives \<open>a\<close> again up to the trailing zeros of the fraction.
\<close>

theorem codec_roundtrip:
  assumes "p \<le> bound" and "valid_amount a" and "length (fraction_part a) \<le> p"
  shows "\<exists>x. parseUnits bound a p = Inr x \<and> normalise (formatUnits x p) = normalise a"
proof -
  let ?w = "whole_part a" and ?f = "fraction_part a"
  let ?n = "digits_val ?w * 10 ^ p + digits_val ?f * 10 ^ (p - length ?f)"
  from assms(2) have w: "valid_whole ?w" and f: "list_all is_digit ?f"
    by (simp_all add: valid_amount_def fraction_digits)
  from w have nd: "CHR ''.'' \<notin> set ?w" by (simp add: valid_whole_def digits_no_point)
  have fmt: "formatUnits (int ?n) p =
      ?w @ (if p = 0 then [] else CHR ''.'' # ?f @ replicate (p - length ?f) (CHR ''0''))"
    using format_parsed [OF w f assms(3)] by (simp only: formatUnits_int)
  have "normalise (formatUnits (int ?n) p) = normalise a"
  proof (cases "p = 0")
    case True
    with assms(3) have "?f = []" by simp
    then have "normalise a = ?w"
      by (simp add: normalise_valid [OF assms(2)] strip_zeros_def)
    moreover from nd have "normalise ?w = ?w" by (simp add: normalise_def)
    moreover from fmt True have "formatUnits (int ?n) p = ?w" by simp
    ultimately show ?thesis by (simp only:)
  next
    case False
    with nd fmt show ?thesis
      by (simp add: normalise_padded normalise_valid [OF assms(2)])
  qed
  with assms show ?thesis by (simp add: parseUnits_valid)
qed

theorem codec_roundtrip_witness:
  "(6::nat) \<le> 18 \<and> valid_amount ''12.50'' \<and> length (fraction_part ''12.50'') \<le> 6 \<and>
   (\<exists>x. parseUnits 18 ''12.50'' 6 = Inr x \<and> normalise (formatUnits x 6) = normalise ''12.50'')"
proof -
  have h: "(6::nat) \<le> 18" "valid_amount ''12.50''" "length (fraction_part ''12.50'') \<le> 6"
    by (simp_all add: amount_defs)
  from h codec_roundtrip [OF h] show ?thesis by simp
qed

section \<open>Rules for runs\<close>

lemma all_returned_append: "all_returned (a @ b) = (all_returned a \<and> all_returned b)"
  by (simp add: all_returned_def)

lemma fail_fast_after_returned: "all_returned a \<Longrightarrow> fail_fast (a @ b) = fail_fast b"
proof (induction a)
  case Nil
  show ?case by simp
next
  case (Cons ev a)
  then show ?case
  proof (cases ev)
    case (Call st r oc)
    with Cons show ?thesis by (cases oc) (simp_all add: all_returned_def)
  qed (simp_all add: all_returned_def)
qed

lemma no_call_sibling: "list_all (\<lambda>ev. \<not> is_call ev) b \<Longrightarrow> list_all sibling_read b"
proof (induction b)
  case (Cons ev b)
  then show ?case by (cases ev) simp_all
qed simp

lemma fail_fast_then_logs:
  "fail_fast a \<Longrightarrow> list_all (\<lambda>ev. \<not> is_call ev) b \<Longrightarrow> fail_fast (a @ b)"
proof (induction a rule: fail_fast.induct)
  case (1)
  then show ?case
  proof (induction b)
    case (Cons ev b)
    then show ?case by (cases ev) simp_all
  qed simp
next
  case (2 st r m evs)
  then show ?case by (auto simp: no_call_sibling)
qed simp_all

lemma failures_append: "failures (a @ b) = failures a @ failures b"
  by (induction a rule: failures.induct) simp_all

lemma failures_returned: "all_returned a \<Longrightarrow> failures a = []"
  by (induction a rule: failures.induct) (simp_all add: all_returned_def)

lemma failures_logs: "list_all (\<lambda>ev. \<not> is_call ev) b \<Longrightarrow> failures b = []"
  by (induction b rule: failures.induct) simp_all

lemma failures_step:
  "list_all (from_step st R) evs \<Longrightarrow> (s, m) \<in> set (failures evs) \<Longrightarrow> s = st"
  by (induction evs rule: failures.induct) auto





lemma blames_iff:
  "blames rep evs err \<longleftrightarrow>
   (failures evs = [] \<or> (\<exists>s m. (s, m) \<in> set (failures evs) \<and> message err = rep s m))"
  by (auto simp: blames_def list_ex_iff)

lemma blames_after_returned:
  "all_returned a \<Longrightarrow> blames rep (a @ b) err = blames rep b err"
  by (simp add: blames_def failures_append failures_returned)

lemma blames_then_logs:
  "list_all (\<lambda>ev. \<not> is_call ev) b \<Longrightarrow> blames rep (a @ b) err = blames rep a err"
  by (simp add: blames_def failures_append failures_logs)

lemma blames_constant: "blames (\<lambda>s m. c) evs (Error c)"
  by (cases "failures evs") (auto simp: blames_def)

lemma blames_stage:
  assumes "list_all (from_step st R) evs" and "\<And>m. rep m = reported st m"
    and "blames (\<lambda>s. rep) evs err"
  shows "blames reported evs err"
  using assms(3) failures_step [OF assms(1)] unfolding blames_iff
  by (metis assms(2))

lemma chosen_member: "rejs \<noteq> [] \<Longrightarrow> chosen k rejs \<in> set rejs"
  by (simp add: chosen_def)

lemma blames_chosen:
  assumes "rejs \<noteq> []"
    and "\<forall>err \<in> set rejs. \<exists>s m. (s, m) \<in> set (failures evs) \<and> message err = rep s m"
  shows "blames rep evs (chosen k rejs)"
  using assms chosen_member [OF assms(1), of k] unfolding blames_iff by blast

lemma stage_return: "P x \<Longrightarrow> stage st R rep P (io_return x)"
  by (simp add: stage_def io_return_def all_returned_def)

lemma stage_throw: "stage st R rep P (io_throw err)"
  by (simp add: stage_def io_throw_def blames_def)

lemma stage_of: "(\<And>x. r = Inr x \<Longrightarrow> P x) \<Longrightarrow> stage st R rep P (io_of r)"
  by (cases r) (simp_all add: stage_def io_of_def all_returned_def blames_def)

lemma stage_log: "stage st R rep (\<lambda>_. True) (console_log s)"
  by (simp add: stage_def console_log_def all_returned_def)

lemma stage_await: "R r \<Longrightarrow> stage st R (\<lambda>m. m) (\<lambda>_. True) (await st r answer)"
  by (auto simp: stage_def await_def all_returned_def blames_def split: sum.splits)

lemma stage_bind:
  assumes m: "stage st R rep P m" and f: "\<And>x. P x \<Longrightarrow> stage st R rep Q (f x)"
  shows "stage st R rep Q (io_bind m f)"
  unfolding stage_def
proof
  fix tr
  from m obtain e1 where e1: "snd (m tr) = tr @ e1" "list_all (from_step st R) e1" "fail_fast e1"
    and r1: "case fst (m tr) of Inr x \<Rightarrow> all_returned e1 \<and> P x
             | Inl err \<Rightarrow> blames (\<lambda>s. rep) e1 err"
    unfolding stage_def by blast
  show "\<exists>evs. snd (io_bind m f tr) = tr @ evs \<and> list_all (from_step st R) evs \<and> fail_fast evs \<and>
        (case fst (io_bind m f tr) of Inr x \<Rightarrow> all_returned evs \<and> Q x
         | Inl err \<Rightarrow> blames (\<lambda>s. rep) evs err)"
  proof (cases "fst (m tr)")
    case (Inl err)
    then have "io_bind m f tr = (Inl err, tr @ e1)"
      using e1(1) by (cases "m tr") (simp add: io_bind_def)
    with e1 r1 Inl show ?thesis by auto
  next
    case (Inr x)
    with r1 have ret: "all_returned e1" and px: "P x" by simp_all
    from Inr have run: "io_bind m f tr = f x (tr @ e1)"
      using e1(1) by (cases "m tr") (simp add: io_bind_def)
    from f [OF px] obtain e2 where e2: "snd (f x (tr @ e1)) = (tr @ e1) @ e2"
      "list_all (from_step st R) e2" "fail_fast e2"
      and r2: "case fst (f x (tr @ e1)) of Inr y \<Rightarrow> all_returned e2 \<and> Q y
             | Inl err \<Rightarrow> blames (\<lambda>s. rep) e2 err"
      unfolding stage_def by blast
    have "snd (io_bind m f tr) = tr @ (e1 @ e2)" using run e2(1) by simp
    moreover have "list_all (from_step st R) (e1 @ e2)" using e1(2) e2(2) by simp
    moreover have "fail_fast (e1 @ e2)" using ret e2(3) by (simp add: fail_fast_after_returned)
    moreover have "case fst (io_bind m f tr) of Inr y \<Rightarrow> all_returned (e1 @ e2) \<and> Q y
             | Inl err \<Rightarrow> blames (\<lambda>s. rep) (e1 @ e2) err"
      using r2 ret by (simp add: run all_returned_append blames_after_returned split: sum.splits)
    ultimately show ?thesis by blast
  qed
qed

lemma stage_then:
  "stage st R rep P m \<Longrightarrow> stage st R rep Q n \<Longrightarrow> stage st R rep Q (io_then m n)"
  unfolding io_then_def by (rule stage_bind)

lemma stage_rethrow:
  assumes m: "stage st R rep P m"
  shows "stage st R (\<lambda>_. c) P
           (io_catch m (\<lambda>err. io_then (console_error (s err)) (io_throw (Error c))))"
  unfolding stage_def
proof
  fix tr
  let ?h = "\<lambda>err. io_then (console_error (s err)) (io_throw (Error c))"
  from m obtain e1 where e1: "snd (m tr) = tr @ e1" "list_all (from_step st R) e1" "fail_fast e1"
    and r1: "case fst (m tr) of Inr x \<Rightarrow> all_returned e1 \<and> P x
             | Inl err \<Rightarrow> blames (\<lambda>s. rep) e1 err"
    unfolding stage_def by blast
  show "\<exists>evs. snd (io_catch m ?h tr) = tr @ evs \<and> list_all (from_step st R) evs \<and> fail_fast evs \<and>
        (case fst (io_catch m ?h tr) of Inr x \<Rightarrow> all_returned evs \<and> P x
         | Inl err \<Rightarrow> blames (\<lambda>s m. c) evs err)"
  proof (cases "fst (m tr)")
    case (Inr x)
    then have "io_catch m ?h tr = (Inr x, tr @ e1)"
      using e1(1) by (cases "m tr") (simp add: io_catch_def)
    with e1 r1 Inr show ?thesis by auto
  next
    case (Inl err)
    then have run: "io_catch m ?h tr = (Inl (Error c), tr @ (e1 @ [LogError (s err)]))"
      using e1(1) by (cases "m tr")
        (simp add: io_catch_def io_then_def io_bind_def console_error_def io_throw_def)
    have "fail_fast (e1 @ [LogError (s err)])"
      using e1(3) by (rule fail_fast_then_logs) simp
    with e1(2) run show ?thesis by (auto simp: blames_constant)
  qed
qed

lemma settled_await:
  "settled (await st r a) tr =
     (Inr (case a tr of Inl m \<Rightarrow> Inl (Error m) | Inr x \<Rightarrow> Inr x),
      tr @ [Call st r (case a tr of Inl m \<Rightarrow> Threw m | Inr x \<Rightarrow> Returned)])"
  by (simp add: settled_def await_def split: sum.splits)

lemma stage_pool_reads:
  assumes "is_pool_read r1" "is_pool_read r2" "is_pool_read r3" "R r1" "R r2" "R r3"
  shows "stage GetPoolInfo R (\<lambda>m. m) (\<lambda>_. True)
           (promise_all3 w (await GetPoolInfo r1 a1) (await GetPoolInfo r2 a2)
              (await GetPoolInfo r3 a3))"
  unfolding stage_def
proof
  fix tr
  let ?M = "promise_all3 w (await GetPoolInfo r1 a1) (await GetPoolInfo r2 a2)
              (await GetPoolInfo r3 a3)"
  define o1 where "o1 = (case a1 tr of Inl m \<Rightarrow> Threw m | Inr x \<Rightarrow> Returned)"
  define t1 where "t1 = tr @ [Call GetPoolInfo r1 o1]"
  define o2 where "o2 = (case a2 t1 of Inl m \<Rightarrow> Threw m | Inr x \<Rightarrow> Returned)"
  define t2 where "t2 = t1 @ [Call GetPoolInfo r2 o2]"
  define o3 where "o3 = (case a3 t2 of Inl m \<Rightarrow> Threw m | Inr x \<Rightarrow> Returned)"
  define t3 where "t3 = t2 @ [Call GetPoolInfo r3 o3]"
  define ra where "ra = (case a1 tr of Inl m \<Rightarrow> Inl (Error m) | Inr x \<Rightarrow> Inr x)"
  define rb where "rb = (case a2 t1 of Inl m \<Rightarrow> Inl (Error m) | Inr x \<Rightarrow> Inr x)"
  define rc where "rc = (case a3 t2 of Inl m \<Rightarrow> Inl (Error m) | Inr x \<Rightarrow> Inr x)"
  let ?evs = "[Call GetPoolInfo r1 o1, Call GetPoolInfo r2 o2, Call GetPoolInfo r3 o3]"
  have s1: "settled (await GetPoolInfo r1 a1) tr = (Inr ra, t1)"
    by (simp add: settled_await ra_def t1_def o1_def)
  have s2: "settled (await GetPoolInfo r2 a2) t1 = (Inr rb, t2)"
    by (simp add: settled_await rb_def t2_def o2_def)
  have s3: "settled (await GetPoolInfo r3 a3) t2 = (Inr rc, t3)"
    by (simp add: settled_await rc_def t3_def o3_def)
  have run: "?M tr =
      (case (ra, rb, rc) of
         (Inr x, Inr y, Inr z) \<Rightarrow> io_return (x, y, z)
       | _ \<Rightarrow> first_rejection w (rejection ra @ rejection rb @ rejection rc)) t3"
    by (simp add: promise_all3_def io_bind_def s1 s2 s3)
  have t3: "t3 = tr @ ?evs" by (simp add: t1_def t2_def t3_def)
  have tr: "snd (?M tr) = tr @ ?evs"
    unfolding run t3 [symmetric]
    by (simp add: io_return_def first_rejection_def split: sum.splits)
  have fs: "list_all (from_step GetPoolInfo R) ?evs" using assms by simp
  have ff: "fail_fast ?evs"
    using assms by (cases o1; cases o2; cases o3) simp_all
  have res: "case fst (?M tr) of Inr x \<Rightarrow> all_returned ?evs \<and> True
      | Inl err \<Rightarrow> blames (\<lambda>s m. m) ?evs err"
    unfolding run
    by (cases "a1 tr"; cases "a2 t1"; cases "a3 t2")
      (auto simp: ra_def rb_def rc_def o1_def o2_def o3_def io_return_def first_rejection_def
        all_returned_def intro!: blames_chosen exI [where x = GetPoolInfo])
  from tr fs ff res
  show "\<exists>evs. snd (?M tr) = tr @ evs \<and> list_all (from_step GetPoolInfo R) evs \<and>
      fail_fast evs \<and>
      (case fst (?M tr) of Inr x \<Rightarrow> all_returned evs \<and> True
       | Inl err \<Rightarrow> blames (\<lambda>s m. m) evs err)"
    by blast
qed

lemma stage_populate:
  "R (PopulateTransaction tx) \<Longrightarrow> stage st R (\<lambda>m. m) (\<lambda>x. x = tx) (populate e st tx)"
  unfolding populate_def
  by (rule stage_then [where P = "\<lambda>_. True"], rule stage_await, assumption, rule stage_return, simp)

lemma stage_log_then:
  "stage st R rep Q n \<Longrightarrow> stage st R rep Q (io_then (console_log s) n)"
  by (rule stage_then [where P = "\<lambda>_. True"], rule stage_log)

lemma stage_send:
  "R (SendTransaction tx) \<Longrightarrow> stage st R (\<lambda>m. m) (\<lambda>_. True) (send e st tx)"
  unfolding send_def by (rule stage_await)

lemma stage_wait: "R (Wait h) \<Longrightarrow> stage st R (\<lambda>m. m) (\<lambda>_. True) (wait e st h)"
  unfolding wait_def by (rule stage_await)

lemma approveToken_stage:
  assumes tx: "\<And>n. parseUnits (precisionBound e) amount (decimals USDC) = Inr n \<Longrightarrow>
                 R (PopulateTransaction (ApproveTx t SWAP_ROUTER_CONTRACT_ADDRESS n)) \<and>
                 R (SendTransaction (ApproveTx t SWAP_ROUTER_CONTRACT_ADDRESS n))"
    and w: "\<And>h. R (Wait h)"
  shows "stage ApproveToken R (\<lambda>_. ''Token approval failed'') (\<lambda>_. True) (approveToken e t amount)"
  unfolding approveToken_def
  apply (rule stage_rethrow [where rep = "\<lambda>m. m"])
  apply (rule stage_bind [where P = "\<lambda>n. parseUnits (precisionBound e) amount (decimals USDC) = Inr n"])
   apply (rule stage_of, assumption)
  apply (rule stage_bind [OF stage_populate], simp add: tx)
  apply (rule stage_bind [OF stage_send], simp add: tx)
  apply (intro stage_log_then)
  apply (rule stage_bind [OF stage_wait], rule w)
  apply (rule stage_log)
  done

lemma getPoolInfo_stage:
  assumes "\<And>p. R (Token0 p) \<and> R (Token1 p) \<and> R (Fee p)"
    and "R (GetPool POOL_FACTORY_CONTRACT_ADDRESS (address tIn) (address tOut) 3000)"
  shows "stage GetPoolInfo R (\<lambda>m. m) (\<lambda>_. True) (getPoolInfo e tIn tOut)"
  unfolding getPoolInfo_def
  apply (rule stage_bind [OF stage_await], rule assms(2))
  apply (simp split: option.split add: stage_throw)
  apply (intro allI impI)
  apply (rule stage_bind [OF stage_pool_reads])
        apply (simp_all add: assms(1) split: prod.split)
  apply (simp add: stage_return)
  done

lemma prepareSwapParams_stage:
  assumes "R (Fee p)"
  shows "stage PrepareSwapParams R (\<lambda>m. m)
           (\<lambda>ps. \<exists>f. ps = \<lparr>tokenIn = address USDC, tokenOut = address LINK, fee = f,
                               recipient = signerAddress e, amountIn = amount,
                               amountOutMinimum = 0, sqrtPriceLimitX96 = 0\<rparr>)
           (prepareSwapParams e p amount)"
  unfolding prepareSwapParams_def
  apply (rule stage_bind [OF stage_await], rule assms)
  apply (rule stage_return, blast)
  done

lemma executeSwap_stage:
  assumes "R (PopulateTransaction (ExactInputSingleTx rt ps))"
    and "R (SendTransaction (ExactInputSingleTx rt ps))"
  shows "stage ExecuteSwap R (\<lambda>m. m) (\<lambda>_. True) (executeSwap e rt ps)"
  unfolding executeSwap_def
  apply (rule stage_bind [OF stage_populate], rule assms(1))
  apply (rule stage_bind [OF stage_send], simp add: assms(2))
  apply (intro stage_log_then stage_log)
  done

lemma supplyToAave_stage:
  assumes "R (PopulateTransaction (ApproveTx t AAVE_LENDING_POOL_ADDRESS n))"
    and "R (SendTransaction (ApproveTx t AAVE_LENDING_POOL_ADDRESS n))"
    and "R (Deposit AAVE_LENDING_POOL_ADDRESS t n (signerAddress e) 0)"
    and w: "\<And>h. R (Wait h)"
  shows "stage SupplyToAave R (\<lambda>_. ''Aave supply failed'') (\<lambda>_. True) (supplyToAave e t n)"
  unfolding supplyToAave_def
  apply (rule stage_rethrow [where rep = "\<lambda>m. m"])
  apply (rule stage_bind [OF stage_populate], rule assms(1))
  apply (rule stage_bind [OF stage_send], simp add: assms(2))
  apply (rule stage_bind [OF stage_wait], rule w)
  apply (rule stage_bind [OF stage_await], rule assms(3))
  apply (rule stage_log_then)
  apply (rule stage_bind [OF stage_wait], rule w)
  apply (intro stage_log_then stage_log)
  done

lemma step_indices_append: "step_indices (a @ b) = step_indices a @ step_indices b"
  by (induction a rule: step_indices.induct) simp_all

lemma step_indices_from_step:
  "list_all (from_step st R) evs \<Longrightarrow> i \<in> set (step_indices evs) \<Longrightarrow> i = step_index st"
  by (induction evs rule: step_indices.induct) auto

lemma step_indices_from_steps:
  "list_all (from_steps k R) evs \<Longrightarrow> i \<in> set (step_indices evs) \<Longrightarrow> k \<le> i"
  by (induction evs rule: step_indices.induct) auto

lemma sorted_constant: "(\<And>i. i \<in> set xs \<Longrightarrow> i = (c::nat)) \<Longrightarrow> sorted xs"
  by (induction xs) auto

lemma from_step_steps:
  "list_all (from_step st R) evs \<Longrightarrow> k \<le> step_index st \<Longrightarrow> list_all (from_steps k R) evs"
proof (induction evs)
  case (Cons ev evs)
  then show ?case by (cases ev) simp_all
qed simp

lemma from_steps_mono:
  "list_all (from_steps j R) evs \<Longrightarrow> k \<le> j \<Longrightarrow> list_all (from_steps k R) evs"
proof (induction evs)
  case (Cons ev evs)
  then show ?case by (cases ev) simp_all
qed simp

lemma pipeline_last:
  assumes m: "stage st R rep P m" and rep: "\<And>m. rep m = reported st m"
    and k: "k \<le> step_index st"
  shows "pipeline k R m"
  unfolding pipeline_def
proof
  fix tr
  from m obtain e1 where e1: "snd (m tr) = tr @ e1" "list_all (from_step st R) e1" "fail_fast e1"
    and r1: "case fst (m tr) of Inr x \<Rightarrow> all_returned e1 \<and> P x
             | Inl err \<Rightarrow> blames (\<lambda>s. rep) e1 err"
    unfolding stage_def by blast
  have "sorted (step_indices e1)"
    by (rule sorted_constant) (rule step_indices_from_step [OF e1(2)])
  moreover have "list_all (from_steps k R) e1" using e1(2) k by (rule from_step_steps)
  moreover have "case fst (m tr) of Inr x \<Rightarrow> all_returned e1
      | Inl err \<Rightarrow> blames reported e1 err"
    using r1 blames_stage [OF e1(2) rep] by (auto split: sum.splits)
  ultimately show "\<exists>evs. snd (m tr) = tr @ evs \<and> list_all (from_steps k R) evs \<and>
        sorted (step_indices evs) \<and> fail_fast evs \<and>
        (case fst (m tr) of Inr x \<Rightarrow> all_returned evs
         | Inl err \<Rightarrow> blames reported evs err)"
    using e1 by blast
qed

lemma pipeline_bind:
  assumes m: "stage st R rep P m" and rep: "\<And>m. rep m = reported st m"
    and k: "k \<le> step_index st"
    and f: "\<And>x. P x \<Longrightarrow> pipeline (step_index st) R (f x)"
  shows "pipeline k R (io_bind m f)"
  unfolding pipeline_def
proof
  fix tr
  from m obtain e1 where e1: "snd (m tr) = tr @ e1" "list_all (from_step st R) e1" "fail_fast e1"
    and r1: "case fst (m tr) of Inr x \<Rightarrow> all_returned e1 \<and> P x
             | Inl err \<Rightarrow> blames (\<lambda>s. rep) e1 err"
    unfolding stage_def by blast
  show "\<exists>evs. snd (io_bind m f tr) = tr @ evs \<and> list_all (from_steps k R) evs \<and>
        sorted (step_indices evs) \<and> fail_fast evs \<and>
        (case fst (io_bind m f tr) of Inr x \<Rightarrow> all_returned evs
         | Inl err \<Rightarrow> blames reported evs err)"
  proof (cases "fst (m tr)")
    case (Inl err)
    then have run: "fst (io_bind m f tr) = Inl err" "snd (io_bind m f tr) = snd (m tr)"
      by (cases "m tr", simp add: io_bind_def)+
    from pipeline_last [OF m rep k] obtain evs where "snd (m tr) = tr @ evs"
      "list_all (from_steps k R) evs" "sorted (step_indices evs)" "fail_fast evs"
      "case fst (m tr) of Inr x \<Rightarrow> all_returned evs
         | Inl err \<Rightarrow> blames reported evs err"
      unfolding pipeline_def by blast
    with Inl run show ?thesis by auto
  next
    case (Inr x)
    with r1 have ret: "all_returned e1" and px: "P x" by simp_all
    from Inr have run: "io_bind m f tr = f x (tr @ e1)"
      using e1(1) by (cases "m tr") (simp add: io_bind_def)
    from f [OF px] obtain e2 where e2: "snd (f x (tr @ e1)) = (tr @ e1) @ e2"
      "list_all (from_steps (step_index st) R) e2" "sorted (step_indices e2)" "fail_fast e2"
      and r2: "case fst (f x (tr @ e1)) of Inr y \<Rightarrow> all_returned e2
             | Inl err \<Rightarrow> blames reported e2 err"
      unfolding pipeline_def by blast
    have "snd (io_bind m f tr) = tr @ (e1 @ e2)" using run e2(1) by simp
    moreover have "list_all (from_steps k R) (e1 @ e2)"
      using from_step_steps [OF e1(2) k] from_steps_mono [OF e2(2) k] by simp
    moreover have "sorted (step_indices (e1 @ e2))"
      using e2(3) step_indices_from_step [OF e1(2)] step_indices_from_steps [OF e2(2)]
        sorted_constant [of "step_indices e1" "step_index st"]
      by (auto simp: step_indices_append sorted_append)
    moreover have "fail_fast (e1 @ e2)" using ret e2(4) by (simp add: fail_fast_after_returned)
    moreover have "case fst (io_bind m f tr) of Inr y \<Rightarrow> all_returned (e1 @ e2)
             | Inl err \<Rightarrow> blames reported (e1 @ e2) err"
      using r2 ret by (simp add: run all_returned_append blames_after_returned split: sum.splits)
    ultimately show ?thesis by blast
  qed
qed

lemma pipeline_then:
  assumes "stage st R rep P m" and "\<And>m. rep m = reported st m"
    and "k \<le> step_index st" and "pipeline (step_index st) R n"
  shows "pipeline k R (io_then m n)"
  unfolding io_then_def using assms by (rule pipeline_bind)

lemma main_try_pipeline:
  assumes parse: "parseUnits (precisionBound e) a (decimals USDC) = Inr amt"
    and R: "\<And>t s. R (PopulateTransaction (ApproveTx t s amt)) \<and> R (SendTransaction (ApproveTx t s amt))"
      "\<And>h. R (Wait h)" "\<And>p. R (Token0 p) \<and> R (Token1 p) \<and> R (Fee p)"
      "\<And>f a b n. R (GetPool f a b n)"
      "\<And>rt f. R (PopulateTransaction (ExactInputSingleTx rt
                  \<lparr>tokenIn = address USDC, tokenOut = address LINK, fee = f,
                   recipient = signerAddress e, amountIn = amt,
                   amountOutMinimum = 0, sqrtPriceLimitX96 = 0\<rparr>))
              \<and> R (SendTransaction (ExactInputSingleTx rt
                  \<lparr>tokenIn = address USDC, tokenOut = address LINK, fee = f,
                   recipient = signerAddress e, amountIn = amt,
                   amountOutMinimum = 0, sqrtPriceLimitX96 = 0\<rparr>))"
      "\<And>c t w rf. R (Deposit c t amt w rf)"
  shows "pipeline 0 R (main_try e a amt)"
  unfolding main_try_def
  apply (rule pipeline_then [OF approveToken_stage])
      apply (simp add: parse R)
     apply (rule R)
    apply simp
   apply simp
  apply (rule pipeline_bind [OF getPoolInfo_stage])
      apply (rule R)
     apply (rule R)
    apply simp
   apply simp
  apply (simp split: prod.split)
  apply (intro allI impI)
  apply (rule pipeline_bind [OF prepareSwapParams_stage])
     apply (simp add: R)
    apply simp
   apply simp
  apply (elim exE)
  apply (rule pipeline_then [OF executeSwap_stage])
      apply (simp add: R)
     apply (simp add: R)
    apply simp
   apply simp
  apply (rule pipeline_last [OF supplyToAave_stage])
       apply (simp_all add: R)
  done

section \<open>Runs of the script\<close>

lemma no_call_indices: "list_all (\<lambda>ev. \<not> is_call ev) evs \<Longrightarrow> step_indices evs = []"
  by (induction evs rule: step_indices.induct) simp_all

lemma sibling_indices:
  "list_all sibling_read evs \<Longrightarrow> i \<in> set (step_indices evs) \<Longrightarrow> i = step_index GetPoolInfo"
  by (induction evs rule: step_indices.induct) auto

lemma fail_fast_after:
  "fail_fast (pre @ Call st r (Threw m) # post) \<Longrightarrow> i \<in> set (step_indices post) \<Longrightarrow>
   i \<le> step_index st"
proof (induction pre)
  case Nil
  then show ?case by (auto simp: no_call_indices dest: sibling_indices)
next
  case (Cons ev pre)
  show ?case
  proof (cases "failed_call ev")
    case True
    then obtain s r' m' where ev: "ev = Call s r' (Threw m')"
      by (cases ev rule: failed_call.cases) simp_all
    with Cons.prems(1) have "list_all sibling_read (pre @ Call st r (Threw m) # post)"
      by simp
    then have "st = GetPoolInfo" and "list_all sibling_read post" by simp_all
    with Cons.prems(2) show ?thesis by (auto dest: sibling_indices)
  next
    case False
    with Cons.prems(1) have "fail_fast (pre @ Call st r (Threw m) # post)"
      by (cases ev rule: failed_call.cases) simp_all
    with Cons show ?thesis by simp
  qed
qed

lemma aborts_remaining_holds:
  assumes ff: "fail_fast evs" and so: "sorted (step_indices evs)"
  shows "aborts_remaining evs"
  unfolding aborts_remaining_def list_all_iff
proof
  fix ev assume "ev \<in> set evs"
  then obtain pre post where evs: "evs = pre @ ev # post" by (auto dest: split_list)
  show "case ev of Call st r Returned \<Rightarrow> True
        | Call st r (Threw m) \<Rightarrow> \<forall>i\<in>set (step_indices evs). i \<le> step_index st
        | _ \<Rightarrow> True"
  proof (cases "failed_call ev")
    case True
    then obtain st r m where ev: "ev = Call st r (Threw m)"
      by (cases ev rule: failed_call.cases) simp_all
    have "i \<le> step_index st" if "i \<in> set (step_indices evs)" for i
    proof -
      from that consider "i \<in> set (step_indices pre)" | "i = step_index st"
        | "i \<in> set (step_indices post)"
        by (auto simp: evs ev step_indices_append)
      then show ?thesis
      proof cases
        case 1
        with so show ?thesis by (auto simp: evs ev step_indices_append sorted_append)
      next
        case 2
        then show ?thesis by simp
      next
        case 3
        with ff show ?thesis unfolding evs ev by (rule fail_fast_after)
      qed
    qed
    with ev show ?thesis by simp
  next
    case False
    then show ?thesis by (cases ev rule: failed_call.cases) simp_all
  qed
qed

lemma main_rejects:
  "parseUnits (precisionBound e) a (decimals USDC) = Inl err \<Longrightarrow> main e a tr = (Inl err, tr)"
  by (simp add: main_def io_bind_def io_of_def)

lemma main_run:
  assumes parse: "parseUnits (precisionBound e) a (decimals USDC) = Inr amt"
    and R: "\<And>t s. R (PopulateTransaction (ApproveTx t s amt)) \<and> R (SendTransaction (ApproveTx t s amt))"
      "\<And>h. R (Wait h)" "\<And>p. R (Token0 p) \<and> R (Token1 p) \<and> R (Fee p)"
      "\<And>f a b n. R (GetPool f a b n)"
      "\<And>rt f. R (PopulateTransaction (ExactInputSingleTx rt
                  \<lparr>tokenIn = address USDC, tokenOut = address LINK, fee = f,
                   recipient = signerAddress e, amountIn = amt,
                   amountOutMinimum = 0, sqrtPriceLimitX96 = 0\<rparr>))
              \<and> R (SendTransaction (ExactInputSingleTx rt
                  \<lparr>tokenIn = address USDC, tokenOut = address LINK, fee = f,
                   recipient = signerAddress e, amountIn = amt,
                   amountOutMinimum = 0, sqrtPriceLimitX96 = 0\<rparr>))"
      "\<And>c t w rf. R (Deposit c t amt w rf)"
  shows "fst (main e a []) = Inr () \<and> list_all (from_steps 0 R) (trace e a) \<and>
         sorted (step_indices (trace e a)) \<and> fail_fast (trace e a) \<and>
         (failures (trace e a) \<noteq> [] \<longrightarrow>
            (\<exists>s m. (s, m) \<in> set (failures (trace e a)) \<and>
               last (trace e a) = LogError (''An error occurred: '' @ reported s m)))"
proof -
  let ?h = "\<lambda>err. console_error (''An error occurred: '' @ message err)"
  have run: "main e a [] = io_catch (main_try e a amt) ?h []"
    using parse by (simp add: main_def io_bind_def io_of_def)
  from main_try_pipeline [of e a amt R, OF parse R]
  obtain evs where evs: "snd (main_try e a amt []) = evs" "list_all (from_steps 0 R) evs"
    "sorted (step_indices evs)" "fail_fast evs"
    and res: "case fst (main_try e a amt []) of Inr x \<Rightarrow> all_returned evs
       | Inl err \<Rightarrow> blames reported evs err"
    unfolding pipeline_def by (metis append_Nil)
  show ?thesis
  proof (cases "fst (main_try e a amt [])")
    case (Inr u)
    then have "main e a [] = (Inr (), evs)"
      using evs(1) by (cases "main_try e a amt []") (simp add: run io_catch_def)
    moreover from res Inr have "failures evs = []"
      by (simp add: failures_returned)
    ultimately show ?thesis using evs by (simp add: trace_def)
  next
    case (Inl err)
    let ?l = "LogError (''An error occurred: '' @ message err)"
    from Inl have "main e a [] = (Inr (), evs @ [?l])"
      using evs(1) by (cases "main_try e a amt []") (simp add: run io_catch_def console_error_def)
    moreover have "fail_fast (evs @ [?l])" using evs(4) by (rule fail_fast_then_logs) simp
    moreover have "failures (evs @ [?l]) = failures evs"
      by (simp add: failures_append)
    moreover from res Inl have "failures evs \<noteq> [] \<longrightarrow>
        (\<exists>s m. (s, m) \<in> set (failures evs) \<and> message err = reported s m)"
      by (auto simp: blames_iff)
    moreover have "step_indices (evs @ [?l]) = step_indices evs"
      by (simp add: step_indices_append)
    ultimately show ?thesis using evs res Inl by (simp add: trace_def)
  qed
qed

lemma requests_from_steps:
  "list_all (from_steps k R) evs \<Longrightarrow> r \<in> set (requests evs) \<Longrightarrow> R r"
  by (induction evs rule: requests.induct) auto


section \<open>Runs that return\<close>

lemma io_bind_Inr:
  "io_bind m f tr = (Inr y, tr'') \<longleftrightarrow> (\<exists>x tr'. m tr = (Inr x, tr') \<and> f x tr' = (Inr y, tr''))"
  by (cases "m tr") (auto simp: io_bind_def split: sum.splits)

lemma io_then_Inr:
  "io_then m n tr = (Inr y, tr'') \<longleftrightarrow> (\<exists>x tr'. m tr = (Inr x, tr') \<and> n tr' = (Inr y, tr''))"
  by (simp add: io_then_def io_bind_Inr)

lemma await_Inr:
  "await st r answer tr = (Inr x, tr') \<longleftrightarrow> answer tr = Inr x \<and> tr' = tr @ [Call st r Returned]"
  by (auto simp: await_def split: sum.splits)

lemma console_log_Inr: "console_log s tr = (Inr u, tr') \<longleftrightarrow> tr' = tr @ [Log s]"
  by (auto simp: console_log_def)

lemma io_return_Inr: "io_return x tr = (Inr y, tr') \<longleftrightarrow> y = x \<and> tr' = tr"
  by (auto simp: io_return_def)

lemma io_of_Inr: "io_of r tr = (Inr y, tr') \<longleftrightarrow> r = Inr y \<and> tr' = tr"
  by (auto simp: io_of_def)

lemma io_throw_Inr: "io_throw err tr = (Inr y, tr') \<longleftrightarrow> False"
  by (simp add: io_throw_def)

lemma rethrow_Inr:
  "io_catch m (\<lambda>err. io_then (console_error (s err)) (io_throw (Error c))) tr = (Inr y, tr')
   \<longleftrightarrow> m tr = (Inr y, tr')"
  by (cases "m tr")
    (auto simp: io_catch_def io_then_def io_bind_def console_error_def io_throw_def split: sum.splits)

lemma promise_all3_Inr:
  "promise_all3 w a b c tr = (Inr v, tr') \<longleftrightarrow>
   (\<exists>x y z t1 t2. a tr = (Inr x, t1) \<and> b t1 = (Inr y, t2) \<and> c t2 = (Inr z, tr') \<and> v = (x, y, z))"
  by (cases "a tr"; cases "b (snd (a tr))"; cases "c (snd (b (snd (a tr))))")
    (auto simp: promise_all3_def io_bind_def settled_def io_return_def first_rejection_def
      split: sum.splits)

lemmas Inr_iffs = io_bind_Inr io_then_Inr await_Inr console_log_Inr io_return_Inr io_of_Inr
  io_throw_Inr rethrow_Inr promise_all3_Inr populate_def send_def wait_def

lemma approveToken_Inr:
  assumes "approveToken e t a tr = (Inr u, tr')"
  shows "\<exists>n h rc. parseUnits (precisionBound e) a (decimals USDC) = Inr n \<and>
     tr' = tr @
       [Call ApproveToken (PopulateTransaction (ApproveTx t SWAP_ROUTER_CONTRACT_ADDRESS n)) Returned,
        Call ApproveToken (SendTransaction (ApproveTx t SWAP_ROUTER_CONTRACT_ADDRESS n)) Returned,
        Log dashes, Log ''Sending Approval Transaction...'', Log dashes,
        Log (''Transaction Sent: '' @ h), Log dashes,
        Call ApproveToken (Wait h) Returned,
        Log (''Approval Transaction Confirmed! https://sepolia.etherscan.io/tx/'' @ rc)]"
  using assms unfolding approveToken_def by (auto simp: Inr_iffs)

lemma getPoolInfo_Inr:
  assumes "getPoolInfo e tIn tOut tr = (Inr (p, t0, t1, f), tr')"
  shows "tr' = tr @
       [Call GetPoolInfo (GetPool POOL_FACTORY_CONTRACT_ADDRESS (address tIn) (address tOut) 3000) Returned,
        Call GetPoolInfo (Token0 p) Returned, Call GetPoolInfo (Token1 p) Returned,
        Call GetPoolInfo (Fee p) Returned]"
  using assms unfolding getPoolInfo_def
  by (auto simp: Inr_iffs split: if_splits option.splits)

lemma prepareSwapParams_Inr:
  assumes "prepareSwapParams e p amount tr = (Inr ps, tr')"
  shows "(\<exists>f. ps = \<lparr>tokenIn = address USDC, tokenOut = address LINK, fee = f,
                    recipient = signerAddress e, amountIn = amount,
                    amountOutMinimum = 0, sqrtPriceLimitX96 = 0\<rparr>) \<and>
         tr' = tr @ [Call PrepareSwapParams (Fee p) Returned]"
  using assms unfolding prepareSwapParams_def by (auto simp: Inr_iffs)

lemma executeSwap_Inr:
  assumes "executeSwap e rt ps tr = (Inr u, tr')"
  shows "\<exists>h. tr' = tr @
       [Call ExecuteSwap (PopulateTransaction (ExactInputSingleTx rt ps)) Returned,
        Call ExecuteSwap (SendTransaction (ExactInputSingleTx rt ps)) Returned,
        Log dashes, Log (''Receipt: https://sepolia.etherscan.io/tx/'' @ h), Log dashes]"
  using assms unfolding executeSwap_def by (auto simp: Inr_iffs)

lemma supplyToAave_Inr:
  assumes "supplyToAave e t n tr = (Inr u, tr')"
  shows "\<exists>h1 h2 rc. tr' = tr @
       [Call SupplyToAave (PopulateTransaction (ApproveTx t AAVE_LENDING_POOL_ADDRESS n)) Returned,
        Call SupplyToAave (SendTransaction (ApproveTx t AAVE_LENDING_POOL_ADDRESS n)) Returned,
        Call SupplyToAave (Wait h1) Returned,
        Call SupplyToAave (Deposit AAVE_LENDING_POOL_ADDRESS t n (signerAddress e) 0) Returned,
        Log (''Supply Transaction: '' @ h2),
        Call SupplyToAave (Wait h2) Returned,
        Log (''Supply Response: '' @ rc),
        Log (''Successfully supplied '' @ formatUnits n (decimals LINK) @ '' LINK to Aave.''),
        Log (''Transaction Hash: https://sepolia.etherscan.io/tx/'' @ h2)]"
  using assms unfolding supplyToAave_def by (auto simp: Inr_iffs)

lemma main_completed:
  assumes parse: "parseUnits (precisionBound e) a (decimals USDC) = Inr amt"
    and ok: "no_error_logged (trace e a)"
  shows "\<exists>h1 rc1 p f h2 h3 h4 rc4. trace e a =
    [Call ApproveToken (PopulateTransaction
        (ApproveTx (address USDC) SWAP_ROUTER_CONTRACT_ADDRESS amt)) Returned,
     Call ApproveToken (SendTransaction
        (ApproveTx (address USDC) SWAP_ROUTER_CONTRACT_ADDRESS amt)) Returned,
     Log dashes, Log ''Sending Approval Transaction...'', Log dashes,
     Log (''Transaction Sent: '' @ h1), Log dashes,
     Call ApproveToken (Wait h1) Returned,
     Log (''Approval Transaction Confirmed! https://sepolia.etherscan.io/tx/'' @ rc1),
     Call GetPoolInfo (GetPool POOL_FACTORY_CONTRACT_ADDRESS (address USDC) (address LINK) 3000)
       Returned,
     Call GetPoolInfo (Token0 p) Returned, Call GetPoolInfo (Token1 p) Returned,
     Call GetPoolInfo (Fee p) Returned,
     Call PrepareSwapParams (Fee p) Returned,
     Call ExecuteSwap (PopulateTransaction (ExactInputSingleTx SWAP_ROUTER_CONTRACT_ADDRESS
        \<lparr>tokenIn = address USDC, tokenOut = address LINK, fee = f,
         recipient = signerAddress e, amountIn = amt,
         amountOutMinimum = 0, sqrtPriceLimitX96 = 0\<rparr>)) Returned,
     Call ExecuteSwap (SendTransaction (ExactInputSingleTx SWAP_ROUTER_CONTRACT_ADDRESS
        \<lparr>tokenIn = address USDC, tokenOut = address LINK, fee = f,
         recipient = signerAddress e, amountIn = amt,
         amountOutMinimum = 0, sqrtPriceLimitX96 = 0\<rparr>)) Returned,
     Log dashes, Log (''Receipt: https://sepolia.etherscan.io/tx/'' @ h2), Log dashes,
     Call SupplyToAave (PopulateTransaction
        (ApproveTx (address LINK) AAVE_LENDING_POOL_ADDRESS amt)) Returned,
     Call SupplyToAave (SendTransaction
        (ApproveTx (address LINK) AAVE_LENDING_POOL_ADDRESS amt)) Returned,
     Call SupplyToAave (Wait h3) Returned,
     Call SupplyToAave (Deposit AAVE_LENDING_POOL_ADDRESS (address LINK) amt (signerAddress e) 0)
       Returned,
     Log (''Supply Transaction: '' @ h4),
     Call SupplyToAave (Wait h4) Returned,
     Log (''Supply Response: '' @ rc4),
     Log (''Successfully supplied '' @ formatUnits amt (decimals LINK) @ '' LINK to Aave.''),
     Log (''Transaction Hash: https://sepolia.etherscan.io/tx/'' @ h4)]"
proof -
  let ?h = "\<lambda>err. console_error (''An error occurred: '' @ message err)"
  have run: "main e a [] = io_catch (main_try e a amt) ?h []"
    using parse by (simp add: main_def io_bind_def io_of_def)
  obtain r tr where mt: "main_try e a amt [] = (r, tr)" by (cases "main_try e a amt []")
  show ?thesis
  proof (cases r)
    case (Inl err)
    with mt have "trace e a = tr @ [LogError (''An error occurred: '' @ message err)]"
      by (simp add: trace_def run io_catch_def console_error_def)
    with ok show ?thesis by (simp add: no_error_logged_def)
  next
    case (Inr u)
    with mt have tr: "trace e a = tr" by (simp add: trace_def run io_catch_def)
    from mt Inr have mt': "main_try e a amt [] = (Inr u, tr)" by simp
    then obtain x t1 where
      s1: "approveToken e (address USDC) a [] = (Inr x, t1)"
      and r1: "io_bind (getPoolInfo e USDC LINK) (\<lambda>(poolContract, t0, t1, f).
                 io_bind (prepareSwapParams e poolContract amt) (\<lambda>params.
                 io_then (executeSwap e SWAP_ROUTER_CONTRACT_ADDRESS params)
                   (supplyToAave e (address LINK) (amountIn params)))) t1 = (Inr u, tr)"
      unfolding main_try_def io_then_Inr by blast
    from r1 obtain q t2 where s2': "getPoolInfo e USDC LINK t1 = (Inr q, t2)"
      and r2: "(case q of (poolContract, t0, t1, f) \<Rightarrow>
                 io_bind (prepareSwapParams e poolContract amt) (\<lambda>params.
                 io_then (executeSwap e SWAP_ROUTER_CONTRACT_ADDRESS params)
                   (supplyToAave e (address LINK) (amountIn params)))) t2 = (Inr u, tr)"
      unfolding io_bind_Inr by blast
    obtain p t0 t1' f where q: "q = (p, t0, t1', f)" by (cases q)
    from s2' q have s2: "getPoolInfo e USDC LINK t1 = (Inr (p, t0, t1', f), t2)" by simp
    from r2 q obtain ps t3 where s3: "prepareSwapParams e p amt t2 = (Inr ps, t3)"
      and r3: "io_then (executeSwap e SWAP_ROUTER_CONTRACT_ADDRESS ps)
                 (supplyToAave e (address LINK) (amountIn ps)) t3 = (Inr u, tr)"
      by (auto simp: io_bind_Inr)
    from r3 obtain y t4 where s4: "executeSwap e SWAP_ROUTER_CONTRACT_ADDRESS ps t3 = (Inr y, t4)"
      and s5: "supplyToAave e (address LINK) (amountIn ps) t4 = (Inr u, tr)"
      unfolding io_then_Inr by blast
    from approveToken_Inr [OF s1] parse obtain h1 rc1 where t1: "t1 = [] @
       [Call ApproveToken (PopulateTransaction
          (ApproveTx (address USDC) SWAP_ROUTER_CONTRACT_ADDRESS amt)) Returned,
        Call ApproveToken (SendTransaction
          (ApproveTx (address USDC) SWAP_ROUTER_CONTRACT_ADDRESS amt)) Returned,
        Log dashes, Log ''Sending Approval Transaction...'', Log dashes,
        Log (''Transaction Sent: '' @ h1), Log dashes,
        Call ApproveToken (Wait h1) Returned,
        Log (''Approval Transaction Confirmed! https://sepolia.etherscan.io/tx/'' @ rc1)]"
      by auto
    note t2 = getPoolInfo_Inr [OF s2]
    from prepareSwapParams_Inr [OF s3] obtain f' where
      ps: "ps = \<lparr>tokenIn = address USDC, tokenOut = address LINK, fee = f',
                   recipient = signerAddress e, amountIn = amt,
                   amountOutMinimum = 0, sqrtPriceLimitX96 = 0\<rparr>"
      and t3: "t3 = t2 @ [Call PrepareSwapParams (Fee p) Returned]"
      by auto
    from executeSwap_Inr [OF s4] obtain h2 where t4: "t4 = t3 @
       [Call ExecuteSwap (PopulateTransaction (ExactInputSingleTx SWAP_ROUTER_CONTRACT_ADDRESS ps)) Returned,
        Call ExecuteSwap (SendTransaction (ExactInputSingleTx SWAP_ROUTER_CONTRACT_ADDRESS ps)) Returned,
        Log dashes, Log (''Receipt: https://sepolia.etherscan.io/tx/'' @ h2), Log dashes]"
      by auto
    from supplyToAave_Inr [OF s5] obtain h3 h4 rc4 where t5: "tr = t4 @
       [Call SupplyToAave (PopulateTransaction (ApproveTx (address LINK) AAVE_LENDING_POOL_ADDRESS (amountIn ps))) Returned,
        Call SupplyToAave (SendTransaction (ApproveTx (address LINK) AAVE_LENDING_POOL_ADDRESS (amountIn ps))) Returned,
        Call SupplyToAave (Wait h3) Returned,
        Call SupplyToAave (Deposit AAVE_LENDING_POOL_ADDRESS (address LINK) (amountIn ps) (signerAddress e) 0) Returned,
        Log (''Supply Transaction: '' @ h4),
        Call SupplyToAave (Wait h4) Returned,
        Log (''Supply Response: '' @ rc4),
        Log (''Successfully supplied '' @ formatUnits (amountIn ps) (decimals LINK) @ '' LINK to Aave.''),
        Log (''Transaction Hash: https://sepolia.etherscan.io/tx/'' @ h4)]"
      by auto
    have amt: "amountIn ps = amt" by (simp add: ps)
    show ?thesis
      apply (rule exI [where x = h1], rule exI [where x = rc1], rule exI [where x = p])
      apply (rule exI [where x = f'], rule exI [where x = h2], rule exI [where x = h3])
      apply (rule exI [where x = h4], rule exI [where x = rc4])
      apply (simp only: tr t5 t4 t3 t2 t1 amt append_Nil append_Cons append_assoc)
      apply (simp only: ps)
      done
  qed
qed

section \<open>Runs in the sample environments\<close>

lemmas io_defs = io_return_def io_throw_def io_of_def io_bind_def io_then_def io_catch_def
  console_log_def console_error_def await_def settled_def promise_all3_def first_rejection_def
  chosen_def populate_def
  send_def wait_def

lemmas script_defs = trace_def main_def main_try_def approveToken_def getPoolInfo_def
  prepareSwapParams_def executeSwap_def supplyToAave_def falsy_def USDC_def LINK_def dashes_def
  SWAP_ROUTER_CONTRACT_ADDRESS_def AAVE_LENDING_POOL_ADDRESS_def
  POOL_FACTORY_CONTRACT_ADDRESS_def

lemmas env_defs = mock_env_def swap_rejected_env_def swap_reverted_env_def racing_reads_env_def
  factory_down_env_def no_pool_env_def
  no_pool_live_env_def zero_address_def

lemma parse_one: "parseUnits 18 ''1'' 6 = Inr 1000000"
  by (simp add: parseUnits_def amount_defs)

lemma format_million: "formatUnits 1000000 18 = ''0.000000000001000000''"
  by (simp add: format_defs)

lemmas run_defs = script_defs io_defs env_defs parse_one format_million

lemma mock_requests:
  "requests (trace mock_env ''1'') =
    [PopulateTransaction (ApproveTx (address USDC) SWAP_ROUTER_CONTRACT_ADDRESS 1000000),
     SendTransaction (ApproveTx (address USDC) SWAP_ROUTER_CONTRACT_ADDRESS 1000000),
     Wait ''0xa1'',
     GetPool POOL_FACTORY_CONTRACT_ADDRESS (address USDC) (address LINK) 3000,
     Token0 ''0x9001'', Token1 ''0x9001'', Fee ''0x9001'', Fee ''0x9001'',
     PopulateTransaction (ExactInputSingleTx SWAP_ROUTER_CONTRACT_ADDRESS
       \<lparr>tokenIn = address USDC, tokenOut = address LINK, fee = 3000,
        recipient = ''0x5196e2'', amountIn = 1000000,
        amountOutMinimum = 0, sqrtPriceLimitX96 = 0\<rparr>),
     SendTransaction (ExactInputSingleTx SWAP_ROUTER_CONTRACT_ADDRESS
       \<lparr>tokenIn = address USDC, tokenOut = address LINK, fee = 3000,
        recipient = ''0x5196e2'', amountIn = 1000000,
        amountOutMinimum = 0, sqrtPriceLimitX96 = 0\<rparr>),
     PopulateTransaction (ApproveTx (address LINK) AAVE_LENDING_POOL_ADDRESS 1000000),
     SendTransaction (ApproveTx (address LINK) AAVE_LENDING_POOL_ADDRESS 1000000),
     Wait ''0xa3'',
     Deposit AAVE_LENDING_POOL_ADDRESS (address LINK) 1000000 ''0x5196e2'' 0,
     Wait ''0xd4'']"
  by (simp add: run_defs)

lemma mock_completes: "no_error_logged (trace mock_env ''1'')"
  by (simp add: run_defs no_error_logged_def)









lemma swap_reverted_requests:
  "requests (trace swap_reverted_env ''1'') = requests (trace mock_env ''1'')"
  by (simp add: run_defs)

lemma swap_reverted_completes: "no_error_logged (trace swap_reverted_env ''1'')"
  by (simp add: run_defs no_error_logged_def)

section \<open>Waiting for confirmation\<close>

text \<open>
  Claim C1 says that every submission is confirmed before the next one goes out: the
  first approval, the swap, the approval for the lending pool and the deposit. The
  script does not wait for the swap. \<^verbatim>\<open>executeSwap\<close> awaits \<^verbatim>\<open>sendTransaction\<close> only,
  so in the run of \<^verbatim>\<open>main(1)\<close> on a network where every request succeeds the approval
  for the lending pool is built and sent right after the swap was sent, with no wait for
  the swap's receipt in between, while the two approvals and the deposit are each waited
  for.
\<close>

theorem swap_not_confirmed_before_supply:
  "requests (trace mock_env ''1'') =
    [PopulateTransaction (ApproveTx (address USDC) SWAP_ROUTER_CONTRACT_ADDRESS 1000000),
     SendTransaction (ApproveTx (address USDC) SWAP_ROUTER_CONTRACT_ADDRESS 1000000),
     Wait ''0xa1'',
     GetPool POOL_FACTORY_CONTRACT_ADDRESS (address USDC) (address LINK) 3000,
     Token0 ''0x9001'', Token1 ''0x9001'', Fee ''0x9001'', Fee ''0x9001'',
     PopulateTransaction (ExactInputSingleTx SWAP_ROUTER_CONTRACT_ADDRESS
       \<lparr>tokenIn = address USDC, tokenOut = address LINK, fee = 3000,
        recipient = ''0x5196e2'', amountIn = 1000000,
        amountOutMinimum = 0, sqrtPriceLimitX96 = 0\<rparr>),
     SendTransaction (ExactInputSingleTx SWAP_ROUTER_CONTRACT_ADDRESS
       \<lparr>tokenIn = address USDC, tokenOut = address LINK, fee = 3000,
        recipient = ''0x5196e2'', amountIn = 1000000,
        amountOutMinimum = 0, sqrtPriceLimitX96 = 0\<rparr>),
     PopulateTransaction (ApproveTx (address LINK) AAVE_LENDING_POOL_ADDRESS 1000000),
     SendTransaction (ApproveTx (address LINK) AAVE_LENDING_POOL_ADDRESS 1000000),
     Wait ''0xa3'',
     Deposit AAVE_LENDING_POOL_ADDRESS (address LINK) 1000000 ''0x5196e2'' 0,
     Wait ''0xd4''] \<and>
   \<not> confirmed_in_turn False (requests (trace mock_env ''1''))"
  by (simp add: mock_requests)

section \<open>A pair without a pool\<close>

text \<open>
  Claim C2 says that pool resolution fails with \<^verbatim>\<open>PoolNotFound\<close> when the factory
  returns a null or zero pool address, and that the pipeline then does not build swap
  parameters. The check of \<^verbatim>\<open>getPoolInfo\<close> is \<^verbatim>\<open>!poolAddress\<close>, which holds of
  \<^verbatim>\<open>null\<close> and not of the zero address, a non-empty string. With the zero address the
  script goes on to read the pool at that address: where these reads answer, the run
  builds the swap parameters, executes the swap and completes without an error; where
  they fail, the error reported is theirs and not that of the missing pool.
\<close>

theorem zero_pool_address_not_rejected:
  "step_invoked PrepareSwapParams (trace no_pool_env ''1'') \<and>
   step_invoked ExecuteSwap (trace no_pool_env ''1'') \<and>
   no_error_logged (trace no_pool_env ''1'') \<and>
   Token0 zero_address \<in> set (requests (trace no_pool_live_env ''1'')) \<and>
   first_failure (trace no_pool_live_env ''1'') =
     Some (GetPoolInfo, ''could not decode result data'') \<and>
   last (trace no_pool_live_env ''1'') =
     LogError ''An error occurred: could not decode result data''"
  by (simp add: run_defs step_invoked_def no_error_logged_def)

section \<open>A failed swap and the supply step\<close>

lemma step_failed_iff:
  "step_failed st evs \<longleftrightarrow> (\<exists>r m. Call st r (Threw m) \<in> set evs)"
proof -
  have "(case ev of Call s r Returned \<Rightarrow> False | Call s r (Threw m) \<Rightarrow> s = st | _ \<Rightarrow> False)
        \<longleftrightarrow> (\<exists>r m. ev = Call st r (Threw m))" for ev
    by (cases ev rule: failed_call.cases) auto
  then show ?thesis by (auto simp: step_failed_def list_ex_iff)
qed

lemma step_invoked_index:
  "step_invoked st evs \<Longrightarrow> step_index st \<in> set (step_indices evs)"
  unfolding step_invoked_def
  by (induction evs rule: step_indices.induct) auto

lemma aborts_remainingD:
  "aborts_remaining evs \<Longrightarrow> Call st r (Threw m) \<in> set evs \<Longrightarrow>
   i \<in> set (step_indices evs) \<Longrightarrow> i \<le> step_index st"
  unfolding aborts_remaining_def list_all_iff by fastforce

lemma trace_rejected:
  "parseUnits (precisionBound e) a (decimals USDC) = Inl err \<Longrightarrow> trace e a = []"
  by (simp add: trace_def main_rejects)

lemma trace_aborts: "aborts_remaining (trace e a)"
proof (cases "parseUnits (precisionBound e) a (decimals USDC)")
  case (Inl err)
  then show ?thesis by (simp add: trace_rejected aborts_remaining_def)
next
  case (Inr amt)
  from main_run [of e a amt "\<lambda>_. True", OF Inr]
  have "fail_fast (trace e a)" and "sorted (step_indices (trace e a))" by simp_all
  then show ?thesis by (rule aborts_remaining_holds)
qed

text \<open>
  What the script does abort on is a request that throws: whatever the network answers,
  when building or sending the swap transaction threw, no request of the supply step is
  in the run.
\<close>

lemma thrown_swap_request_aborts_supply:
  assumes "step_failed ExecuteSwap (trace e a)"
  shows "\<not> step_invoked SupplyToAave (trace e a)"
proof
  from assms obtain r m where "Call ExecuteSwap r (Threw m) \<in> set (trace e a)"
    unfolding step_failed_iff by blast
  moreover assume "step_invoked SupplyToAave (trace e a)"
  then have "step_index SupplyToAave \<in> set (step_indices (trace e a))"
    by (rule step_invoked_index)
  ultimately have "step_index SupplyToAave \<le> step_index ExecuteSwap"
    using trace_aborts by (rule aborts_remainingD [rotated])
  then show False by simp
qed

text \<open>
  Claim C3 says that in every run in which the swap step fails the supply step, the
  second approval and the deposit, is never invoked. A swap fails when its transaction
  is rejected, which the network reports when the transaction is confirmed.
  \<^verbatim>\<open>executeSwap\<close> does not wait for that: it awaits \<^verbatim>\<open>sendTransaction\<close> and returns. In
  the run of \<^verbatim>\<open>main(1)\<close> on a network where the swap is sent with hash \<^verbatim>\<open>0xb2\<close> and
  then reverts, the script never asks for the receipt of \<^verbatim>\<open>0xb2\<close>, no request of the
  swap step throws, and the supply step is invoked: the approval for the lending pool
  and the deposit are both submitted, and the run ends without an error.
\<close>

theorem reverted_swap_does_not_abort_supply:
  "(\<forall>tr. waitReceipt swap_reverted_env tr ''0xb2'' = Inl ''execution reverted'') \<and>
   Log ''Receipt: https://sepolia.etherscan.io/tx/0xb2'' \<in> set (trace swap_reverted_env ''1'') \<and>
   Wait ''0xb2'' \<notin> set (requests (trace swap_reverted_env ''1'')) \<and>
   \<not> step_failed ExecuteSwap (trace swap_reverted_env ''1'') \<and>
   step_invoked SupplyToAave (trace swap_reverted_env ''1'') \<and>
   submissions (trace swap_reverted_env ''1'') =
     [SendTransaction (ApproveTx (address USDC) SWAP_ROUTER_CONTRACT_ADDRESS 1000000),
      SendTransaction (ExactInputSingleTx SWAP_ROUTER_CONTRACT_ADDRESS
        \<lparr>tokenIn = address USDC, tokenOut = address LINK, fee = 3000,
         recipient = ''0x5196e2'', amountIn = 1000000,
         amountOutMinimum = 0, sqrtPriceLimitX96 = 0\<rparr>),
      SendTransaction (ApproveTx (address LINK) AAVE_LENDING_POOL_ADDRESS 1000000),
      Deposit AAVE_LENDING_POOL_ADDRESS (address LINK) 1000000 ''0x5196e2'' 0] \<and>
   no_error_logged (trace swap_reverted_env ''1'')"
  by (simp add: run_defs step_failed_def step_invoked_def submissions_def no_error_logged_def)

section \<open>The end-to-end run\<close>

lemma parse_one_bound: "6 \<le> b \<Longrightarrow> parseUnits b ''1'' 6 = Inr 1000000"
  by (simp add: parseUnits_def amount_defs)

text \<open>
  Claim C4. With the input amount 1 the base-unit amount is 1000000 (the codec supports
  the 6 decimals of the input token), and a run that completes without an error submits
  exactly four transactions, in the order of the pipeline: the approval with the swap
  router as spender, the swap, the approval with the lending pool as spender, the
  deposit.
\<close>

theorem end_to_end_submissions:
  assumes "6 \<le> precisionBound e" and "no_error_logged (trace e ''1'')"
  shows "parseUnits (precisionBound e) ''1'' (decimals USDC) = Inr 1000000 \<and>
    (\<exists>f. submissions (trace e ''1'') =
      [SendTransaction (ApproveTx (address USDC) SWAP_ROUTER_CONTRACT_ADDRESS 1000000),
       SendTransaction (ExactInputSingleTx SWAP_ROUTER_CONTRACT_ADDRESS
         \<lparr>tokenIn = address USDC, tokenOut = address LINK, fee = f,
          recipient = signerAddress e, amountIn = 1000000,
          amountOutMinimum = 0, sqrtPriceLimitX96 = 0\<rparr>),
       SendTransaction (ApproveTx (address LINK) AAVE_LENDING_POOL_ADDRESS 1000000),
       Deposit AAVE_LENDING_POOL_ADDRESS (address LINK) 1000000 (signerAddress e) 0])"
proof -
  from assms(1) have parse: "parseUnits (precisionBound e) ''1'' (decimals USDC) = Inr 1000000"
    by (simp add: USDC_def parse_one_bound)
  from main_completed [OF parse assms(2)] obtain h1 rc1 p f h2 h3 h4 rc4 where
    "trace e ''1'' =
    [Call ApproveToken (PopulateTransaction
        (ApproveTx (address USDC) SWAP_ROUTER_CONTRACT_ADDRESS 1000000)) Returned,
     Call ApproveToken (SendTransaction
        (ApproveTx (address USDC) SWAP_ROUTER_CONTRACT_ADDRESS 1000000)) Returned,
     Log dashes, Log ''Sending Approval Transaction...'', Log dashes,
     Log (''Transaction Sent: '' @ h1), Log dashes,
     Call ApproveToken (Wait h1) Returned,
     Log (''Approval Transaction Confirmed! https://sepolia.etherscan.io/tx/'' @ rc1),
     Call GetPoolInfo (GetPool POOL_FACTORY_CONTRACT_ADDRESS (address USDC) (address LINK) 3000)
       Returned,
     Call GetPoolInfo (Token0 p) Returned, Call GetPoolInfo (Token1 p) Returned,
     Call GetPoolInfo (Fee p) Returned,
     Call PrepareSwapParams (Fee p) Returned,
     Call ExecuteSwap (PopulateTransaction (ExactInputSingleTx SWAP_ROUTER_CONTRACT_ADDRESS
        \<lparr>tokenIn = address USDC, tokenOut = address LINK, fee = f,
         recipient = signerAddress e, amountIn = 1000000,
         amountOutMinimum = 0, sqrtPriceLimitX96 = 0\<rparr>)) Returned,
     Call ExecuteSwap (SendTransaction (ExactInputSingleTx SWAP_ROUTER_CONTRACT_ADDRESS
        \<lparr>tokenIn = address USDC, tokenOut = address LINK, fee = f,
         recipient = signerAddress e, amountIn = 1000000,
         amountOutMinimum = 0, sqrtPriceLimitX96 = 0\<rparr>)) Returned,
     Log dashes, Log (''Receipt: https://sepolia.etherscan.io/tx/'' @ h2), Log dashes,
     Call SupplyToAave (PopulateTransaction
        (ApproveTx (address LINK) AAVE_LENDING_POOL_ADDRESS 1000000)) Returned,
     Call SupplyToAave (SendTransaction
        (ApproveTx (address LINK) AAVE_LENDING_POOL_ADDRESS 1000000)) Returned,
     Call SupplyToAave (Wait h3) Returned,
     Call SupplyToAave (Deposit AAVE_LENDING_POOL_ADDRESS (address LINK) 1000000 (signerAddress e) 0)
       Returned,
     Log (''Supply Transaction: '' @ h4),
     Call SupplyToAave (Wait h4) Returned,
     Log (''Supply Response: '' @ rc4),
     Log (''Successfully supplied '' @ formatUnits 1000000 (decimals LINK) @ '' LINK to Aave.''),
     Log (''Transaction Hash: https://sepolia.etherscan.io/tx/'' @ h4)]"
    by blast
  then have "submissions (trace e ''1'') =
      [SendTransaction (ApproveTx (address USDC) SWAP_ROUTER_CONTRACT_ADDRESS 1000000),
       SendTransaction (ExactInputSingleTx SWAP_ROUTER_CONTRACT_ADDRESS
         \<lparr>tokenIn = address USDC, tokenOut = address LINK, fee = f,
          recipient = signerAddress e, amountIn = 1000000,
          amountOutMinimum = 0, sqrtPriceLimitX96 = 0\<rparr>),
       SendTransaction (ApproveTx (address LINK) AAVE_LENDING_POOL_ADDRESS 1000000),
       Deposit AAVE_LENDING_POOL_ADDRESS (address LINK) 1000000 (signerAddress e) 0]"
    by (simp add: submissions_def)
  with parse show ?thesis by blast
qed

theorem end_to_end_submissions_witness:
  "6 \<le> precisionBound mock_env \<and> no_error_logged (trace mock_env ''1'') \<and>
   parseUnits (precisionBound mock_env) ''1'' (decimals USDC) = Inr 1000000 \<and>
   (\<exists>f. submissions (trace mock_env ''1'') =
      [SendTransaction (ApproveTx (address USDC) SWAP_ROUTER_CONTRACT_ADDRESS 1000000),
       SendTransaction (ExactInputSingleTx SWAP_ROUTER_CONTRACT_ADDRESS
         \<lparr>tokenIn = address USDC, tokenOut = address LINK, fee = f,
          recipient = signerAddress mock_env, amountIn = 1000000,
          amountOutMinimum = 0, sqrtPriceLimitX96 = 0\<rparr>),
       SendTransaction (ApproveTx (address LINK) AAVE_LENDING_POOL_ADDRESS 1000000),
       Deposit AAVE_LENDING_POOL_ADDRESS (address LINK) 1000000 (signerAddress mock_env) 0])"
proof -
  have h: "6 \<le> precisionBound mock_env" "no_error_logged (trace mock_env ''1'')"
    by (simp add: mock_env_def, rule mock_completes)
  from h end_to_end_submissions [OF h] show ?thesis by blast
qed

section \<open>The amount through the pipeline\<close>

lemma trace_requests:
  assumes parse: "parseUnits (precisionBound e) a (decimals USDC) = Inr amt"
    and R: "\<And>t s. R (PopulateTransaction (ApproveTx t s amt)) \<and> R (SendTransaction (ApproveTx t s amt))"
      "\<And>h. R (Wait h)" "\<And>p. R (Token0 p) \<and> R (Token1 p) \<and> R (Fee p)"
      "\<And>f a b n. R (GetPool f a b n)"
      "\<And>rt f. R (PopulateTransaction (ExactInputSingleTx rt
                  \<lparr>tokenIn = address USDC, tokenOut = address LINK, fee = f,
                   recipient = signerAddress e, amountIn = amt,
                   amountOutMinimum = 0, sqrtPriceLimitX96 = 0\<rparr>))
              \<and> R (SendTransaction (ExactInputSingleTx rt
                  \<lparr>tokenIn = address USDC, tokenOut = address LINK, fee = f,
                   recipient = signerAddress e, amountIn = amt,
                   amountOutMinimum = 0, sqrtPriceLimitX96 = 0\<rparr>))"
      "\<And>c t w rf. R (Deposit c t amt w rf)"
    and r: "r \<in> set (requests (trace e a))"
  shows "R r"
proof -
  from main_run [of e a amt R, OF parse R]
  have "list_all (from_steps 0 R) (trace e a)" by simp
  then show ?thesis using r by (rule requests_from_steps)
qed

lemma trace_amounts:
  assumes "parseUnits (precisionBound e) a (decimals USDC) = Inr amt"
    and "r \<in> set (requests (trace e a))" and "request_amount r = Some n"
  shows "n = amt"
proof -
  have "\<forall>n. request_amount r = Some n \<longrightarrow> n = amt"
    by (rule trace_requests [of e a amt "\<lambda>r. \<forall>n. request_amount r = Some n \<longrightarrow> n = amt",
          OF assms(1) _ _ _ _ _ _ assms(2)]) simp_all
  with assms(3) show ?thesis by simp
qed

text \<open>
  Claim C5. In every run, whatever the network answers, the amount of the swap and the
  amount supplied to the lending pool (approved for it and deposited) are one and the
  same value: the base units of the caller's amount at the precision of the input token.
  Nothing read from the execution of the swap enters it.
\<close>

theorem single_amount_propagated:
  assumes "parseUnits (precisionBound e) a (decimals USDC) = Inr amt"
  shows "(\<forall>rt ps. SendTransaction (ExactInputSingleTx rt ps) \<in> set (requests (trace e a))
            \<longrightarrow> amountIn ps = amt) \<and>
         (\<forall>t s n. SendTransaction (ApproveTx t s n) \<in> set (requests (trace e a))
            \<longrightarrow> n = amt) \<and>
         (\<forall>c t n w rf. Deposit c t n w rf \<in> set (requests (trace e a)) \<longrightarrow> n = amt)"
  using trace_amounts [OF assms] by fastforce

theorem single_amount_propagated_witness:
  "parseUnits (precisionBound mock_env) ''1'' (decimals USDC) = Inr 1000000 \<and>
   SendTransaction (ExactInputSingleTx SWAP_ROUTER_CONTRACT_ADDRESS
       \<lparr>tokenIn = address USDC, tokenOut = address LINK, fee = 3000,
        recipient = ''0x5196e2'', amountIn = 1000000,
        amountOutMinimum = 0, sqrtPriceLimitX96 = 0\<rparr>) \<in> set (requests (trace mock_env ''1'')) \<and>
   SendTransaction (ApproveTx (address LINK) AAVE_LENDING_POOL_ADDRESS 1000000)
     \<in> set (requests (trace mock_env ''1'')) \<and>
   Deposit AAVE_LENDING_POOL_ADDRESS (address LINK) 1000000 ''0x5196e2'' 0
     \<in> set (requests (trace mock_env ''1'')) \<and>
   amountIn \<lparr>tokenIn = address USDC, tokenOut = address LINK, fee = 3000,
        recipient = ''0x5196e2'', amountIn = 1000000,
        amountOutMinimum = 0, sqrtPriceLimitX96 = 0\<rparr> = 1000000"
proof -
  have h: "parseUnits (precisionBound mock_env) ''1'' (decimals USDC) = Inr 1000000"
    by (simp add: mock_env_def USDC_def parse_one)
  have m: "SendTransaction (ExactInputSingleTx SWAP_ROUTER_CONTRACT_ADDRESS
       \<lparr>tokenIn = address USDC, tokenOut = address LINK, fee = 3000,
        recipient = ''0x5196e2'', amountIn = 1000000,
        amountOutMinimum = 0, sqrtPriceLimitX96 = 0\<rparr>) \<in> set (requests (trace mock_env ''1''))"
    "SendTransaction (ApproveTx (address LINK) AAVE_LENDING_POOL_ADDRESS 1000000)
       \<in> set (requests (trace mock_env ''1''))"
    "Deposit AAVE_LENDING_POOL_ADDRESS (address LINK) 1000000 ''0x5196e2'' 0
       \<in> set (requests (trace mock_env ''1''))"
    by (simp_all add: mock_requests)
  note t = single_amount_propagated [OF h]
  note c = t [THEN conjunct1, THEN spec, THEN spec, THEN mp, OF m(1)]
  show ?thesis by (intro conjI h m c)
qed

section \<open>What a failure leaves behind\<close>




section \<open>The swap parameters\<close>

text \<open>
  Claim C7. Whatever pool was resolved, and whichever of the two tokens the pool lists
  first, the swap parameters that \<^verbatim>\<open>prepareSwapParams\<close> builds have the input token as
  \<open>tokenIn\<close>, and 0 as minimum output and as price limit; so has every swap that a run
  of \<^verbatim>\<open>main\<close> submits.
\<close>

theorem swap_params_ignore_pool_order:
  "(prepareSwapParams e p amount tr = (Inr ps, tr') \<longrightarrow>
      tokenIn ps = address USDC \<and> amountOutMinimum ps = 0 \<and> sqrtPriceLimitX96 ps = 0) \<and>
   (\<forall>rt qs. SendTransaction (ExactInputSingleTx rt qs) \<in> set (requests (trace e a)) \<longrightarrow>
      tokenIn qs = address USDC \<and> amountOutMinimum qs = 0 \<and> sqrtPriceLimitX96 qs = 0)"
proof
  show "prepareSwapParams e p amount tr = (Inr ps, tr') \<longrightarrow>
      tokenIn ps = address USDC \<and> amountOutMinimum ps = 0 \<and> sqrtPriceLimitX96 ps = 0"
    by (auto dest: prepareSwapParams_Inr)
  show "\<forall>rt qs. SendTransaction (ExactInputSingleTx rt qs) \<in> set (requests (trace e a)) \<longrightarrow>
      tokenIn qs = address USDC \<and> amountOutMinimum qs = 0 \<and> sqrtPriceLimitX96 qs = 0"
  proof (intro allI impI)
    fix rt qs
    assume r: "SendTransaction (ExactInputSingleTx rt qs) \<in> set (requests (trace e a))"
    let ?R = "\<lambda>r. \<forall>rt qs. r = SendTransaction (ExactInputSingleTx rt qs) \<longrightarrow>
      tokenIn qs = address USDC \<and> amountOutMinimum qs = 0 \<and> sqrtPriceLimitX96 qs = 0"
    show "tokenIn qs = address USDC \<and> amountOutMinimum qs = 0 \<and> sqrtPriceLimitX96 qs = 0"
    proof (cases "parseUnits (precisionBound e) a (decimals USDC)")
      case (Inl err)
      with r show ?thesis by (simp add: trace_rejected)
    next
      case (Inr amt)
      have "?R (SendTransaction (ExactInputSingleTx rt qs))"
        by (rule trace_requests [of e a amt ?R, OF Inr _ _ _ _ _ _ r]) simp_all
      then show ?thesis by simp
    qed
  qed
qed

theorem swap_params_ignore_pool_order_witness:
  "token0 mock_env [] ''0x9001'' = Inr (address LINK) \<and> address LINK \<noteq> address USDC \<and>
   prepareSwapParams mock_env ''0x9001'' 1000000 [] =
     (Inr \<lparr>tokenIn = address USDC, tokenOut = address LINK, fee = 3000,
           recipient = ''0x5196e2'', amountIn = 1000000,
           amountOutMinimum = 0, sqrtPriceLimitX96 = 0\<rparr>,
      [Call PrepareSwapParams (Fee ''0x9001'') Returned]) \<and>
   SendTransaction (ExactInputSingleTx SWAP_ROUTER_CONTRACT_ADDRESS
       \<lparr>tokenIn = address USDC, tokenOut = address LINK, fee = 3000,
        recipient = ''0x5196e2'', amountIn = 1000000,
        amountOutMinimum = 0, sqrtPriceLimitX96 = 0\<rparr>) \<in> set (requests (trace mock_env ''1'')) \<and>
   tokenIn \<lparr>tokenIn = address USDC, tokenOut = address LINK, fee = 3000,
        recipient = ''0x5196e2'', amountIn = 1000000,
        amountOutMinimum = 0, sqrtPriceLimitX96 = 0\<rparr> = address USDC"
proof -
  let ?ps = "\<lparr>tokenIn = address USDC, tokenOut = address LINK, fee = 3000,
        recipient = ''0x5196e2'', amountIn = 1000000,
        amountOutMinimum = 0, sqrtPriceLimitX96 = 0\<rparr>"
  have run: "prepareSwapParams mock_env ''0x9001'' 1000000 [] =
     (Inr ?ps, [Call PrepareSwapParams (Fee ''0x9001'') Returned])"
    by (simp add: prepareSwapParams_def io_defs mock_env_def)
  have env: "token0 mock_env [] ''0x9001'' = Inr (address LINK)" "address LINK \<noteq> address USDC"
    by (simp_all add: mock_env_def LINK_def USDC_def)
  have m: "SendTransaction (ExactInputSingleTx SWAP_ROUTER_CONTRACT_ADDRESS ?ps)
       \<in> set (requests (trace mock_env ''1''))"
    by (simp add: mock_requests)
  note t = swap_params_ignore_pool_order [where e = mock_env and p = "''0x9001''"
      and amount = 1000000 and tr = "[]" and ps = ?ps
      and tr' = "[Call PrepareSwapParams (Fee ''0x9001'') Returned]" and a = "''1''"]
  note c = t [THEN conjunct1, THEN mp, OF run, THEN conjunct1]
  show ?thesis using t by (intro conjI env run m c)
qed

section \<open>Amounts that are not amounts\<close>

text \<open>
  Claim C9. The conversion to base units fails with \<^verbatim>\<open>InvalidAmount\<close>, and gives no
  value, for a negative input, for an input that is not a decimal number and for a
  precision beyond the supported bound. \<^verbatim>\<open>main\<close> converts the amount before its
  \<^verbatim>\<open>try\<close> block: for such an input it throws that error and issues no request.
\<close>

theorem invalid_amount_rejected:
  "(negative a \<or> \<not> valid_amount a \<or> bound < p \<longrightarrow> parseUnits bound a p = Inl InvalidAmount) \<and>
   (negative a \<or> \<not> valid_amount a \<longrightarrow> main e a [] = (Inl InvalidAmount, []))"
proof -
  have inv: "\<not> valid_amount a" if "negative a \<or> \<not> valid_amount a"
    using that negative_invalid by blast
  have "main e a [] = (Inl InvalidAmount, [])" if "negative a \<or> \<not> valid_amount a"
    by (rule main_rejects) (simp add: parseUnits_def inv [OF that])
  moreover have "parseUnits bound a p = Inl InvalidAmount"
    if "negative a \<or> \<not> valid_amount a \<or> bound < p"
    using that negative_invalid by (auto simp: parseUnits_def)
  ultimately show ?thesis by blast
qed

theorem invalid_amount_rejected_witness:
  "negative ''-1'' \<and> parseUnits 18 ''-1'' 6 = Inl InvalidAmount \<and>
   main mock_env ''-1'' [] = (Inl InvalidAmount, []) \<and>
   \<not> valid_amount ''1e3'' \<and> parseUnits 18 ''1e3'' 6 = Inl InvalidAmount \<and>
   (18::nat) < 19 \<and> parseUnits 18 ''1'' 19 = Inl InvalidAmount"
proof -
  have h: "negative ''-1''" "\<not> valid_amount ''1e3''" "(18::nat) < 19"
    by (simp_all add: negative_def amount_defs)
  from h invalid_amount_rejected [of "''-1''" 18 6 mock_env]
    invalid_amount_rejected [of "''1e3''" 18 6 mock_env]
    invalid_amount_rejected [of "''1''" 18 19 mock_env]
  show ?thesis by simp
qed

section \<open>The units of the supplied amount\<close>

text \<open>
  Claim C10. The amount approved for the lending pool and deposited is the caller's
  amount in base units of the input token, at 6 decimals; in base units of the target
  token, at 18 decimals, the caller's amount is \<open>10\<^sup>1\<^sup>2\<close> times as much. The success
  line of a run that completes writes that same integer at 18 decimals, so the amount it
  reports, read back at 18 decimals, is the integer itself: the caller's amount divided
  by \<open>10\<^sup>1\<^sup>2\<close>.
\<close>

theorem supply_in_input_token_units:
  assumes "parseUnits (precisionBound e) a (decimals USDC) = Inr amt"
    and "18 \<le> precisionBound e"
  shows "(\<forall>c t n w rf. Deposit c t n w rf \<in> set (requests (trace e a)) \<longrightarrow> n = amt) \<and>
         (\<forall>t n. SendTransaction (ApproveTx t AAVE_LENDING_POOL_ADDRESS n)
                  \<in> set (requests (trace e a)) \<longrightarrow> n = amt) \<and>
         parseUnits (precisionBound e) a (decimals LINK) = Inr (amt * 10 ^ 12) \<and>
         (no_error_logged (trace e a) \<longrightarrow>
            Log (''Successfully supplied '' @ formatUnits amt (decimals LINK) @ '' LINK to Aave.'')
              \<in> set (trace e a)) \<and>
         parseUnits (precisionBound e) (formatUnits amt (decimals LINK)) (decimals LINK) = Inr amt"
proof -
  have d: "decimals USDC = 6" "decimals LINK = 18" by (simp_all add: USDC_def LINK_def)
  have amounts: "(\<forall>c t n w rf. Deposit c t n w rf \<in> set (requests (trace e a)) \<longrightarrow> n = amt) \<and>
         (\<forall>t n. SendTransaction (ApproveTx t AAVE_LENDING_POOL_ADDRESS n)
                  \<in> set (requests (trace e a)) \<longrightarrow> n = amt)"
    using trace_amounts [OF assms(1)] by fastforce
  from assms have "parseUnits (precisionBound e) a (6 + 12) = Inr (amt * 10 ^ 12)"
    unfolding d by (intro parse_rescale) simp_all
  then have scale: "parseUnits (precisionBound e) a (decimals LINK) = Inr (amt * 10 ^ 12)"
    by (simp add: d)
  from assms(1) have "0 \<le> amt" by (rule parseUnits_nonneg)
  then have "formatUnits amt 18 = format_nat (nat amt) 18" by (simp add: formatUnits_def)
  with parse_formatted [OF assms(2), of "nat amt"] \<open>0 \<le> amt\<close>
  have readback: "parseUnits (precisionBound e) (formatUnits amt (decimals LINK)) (decimals LINK) = Inr amt"
    by (simp add: d)
  have line: "Log (''Successfully supplied '' @ formatUnits amt (decimals LINK) @ '' LINK to Aave.'')
      \<in> set (trace e a)" if "no_error_logged (trace e a)"
    using main_completed [OF assms(1) that] by auto
  from amounts scale readback line show ?thesis by blast
qed

theorem supply_in_input_token_units_witness:
  "parseUnits (precisionBound mock_env) ''1'' (decimals USDC) = Inr 1000000 \<and>
   18 \<le> precisionBound mock_env \<and> no_error_logged (trace mock_env ''1'') \<and>
   Deposit AAVE_LENDING_POOL_ADDRESS (address LINK) 1000000 ''0x5196e2'' 0
     \<in> set (requests (trace mock_env ''1'')) \<and>
   SendTransaction (ApproveTx (address LINK) AAVE_LENDING_POOL_ADDRESS 1000000)
     \<in> set (requests (trace mock_env ''1'')) \<and>
   parseUnits (precisionBound mock_env) ''1'' (decimals LINK) = Inr (1000000 * 10 ^ 12) \<and>
   Log (''Successfully supplied '' @ formatUnits 1000000 (decimals LINK) @ '' LINK to Aave.'')
     \<in> set (trace mock_env ''1'') \<and>
   parseUnits (precisionBound mock_env) (formatUnits 1000000 (decimals LINK)) (decimals LINK)
     = Inr 1000000 \<and>
   formatUnits 1000000 (decimals LINK) = ''0.000000000001000000''"
proof -
  have h: "parseUnits (precisionBound mock_env) ''1'' (decimals USDC) = Inr 1000000"
    "18 \<le> precisionBound mock_env"
    by (simp_all add: mock_env_def USDC_def parse_one)
  have f: "formatUnits 1000000 (decimals LINK) = ''0.000000000001000000''"
    by (simp add: LINK_def format_million)
  have m: "Deposit AAVE_LENDING_POOL_ADDRESS (address LINK) 1000000 ''0x5196e2'' 0
       \<in> set (requests (trace mock_env ''1''))"
    "SendTransaction (ApproveTx (address LINK) AAVE_LENDING_POOL_ADDRESS 1000000)
       \<in> set (requests (trace mock_env ''1''))"
    by (simp_all add: mock_requests)
  note t = supply_in_input_token_units [OF h, THEN conjunct2, THEN conjunct2]
  note c = t [THEN conjunct1] t [THEN conjunct2, THEN conjunct1, THEN mp, OF mock_completes]
    t [THEN conjunct2, THEN conjunct2]
  show ?thesis by (intro conjI h mock_completes m c f)
qed

end
